theory Spec2Isabelle
  imports Main
begin

section \<open>The host's dates\<close>

text \<open>
  A JavaScript \<open>Date\<close> is a count of milliseconds since 1970-01-01T00:00:00Z. Its local
  fields are read through the time zone of the browser, which the language describes by
  two lookups: the offset in force at an instant, and the offset by which a local time is
  to be read. A zone is modelled by its standard offset, in minutes ahead of UTC (60 for
  UTC+1, -300 for UTC-5), and at most one period of summer time, given by the two instants
  between which the clocks stand one hour ahead. A local time that a change of the clocks
  skips or repeats is read with the offset before the change.
  Invalid dates are not modelled: the booking form builds its dates from the values of date
  inputs.
\<close>

type_synonym Date = int

definition msPerDay :: int where
  "msPerDay = 86400000"

definition msPerHour :: int where
  "msPerHour = 3600000"

record zone =
  standard :: int
  summer :: "(Date \<times> Date) option"

definition fixed :: "int \<Rightarrow> zone" where
  \<comment> \<open>a zone without summer time\<close>
  "fixed m = \<lparr>standard = m, summer = None\<rparr>"

definition offsetMs :: "int \<Rightarrow> int" where
  "offsetMs m = m * 60000"

definition inSummer :: "zone \<Rightarrow> Date \<Rightarrow> bool" where
  "inSummer z t = (case summer z of None \<Rightarrow> False | Some (a, b) \<Rightarrow> a \<le> t \<and> t < b)"

definition offsetAt :: "zone \<Rightarrow> Date \<Rightarrow> int" where
  \<comment> \<open>the offset in force at the instant \<open>t\<close>\<close>
  "offsetAt z t = offsetMs (standard z) + (if inSummer z t then msPerHour else 0)"

definition offsetOf :: "zone \<Rightarrow> int \<Rightarrow> int" where
  \<comment> \<open>the offset by which the local time \<open>l\<close> is read: summer time when the instant it
      names in summer time lies in the summer period\<close>
  "offsetOf z l =
     offsetMs (standard z)
       + (if inSummer z (l - offsetMs (standard z) - msPerHour) then msPerHour else 0)"

definition LocalTime :: "zone \<Rightarrow> Date \<Rightarrow> int" where
  "LocalTime z t = t + offsetAt z t"

definition UTC :: "zone \<Rightarrow> int \<Rightarrow> Date" where
  "UTC z l = l - offsetOf z l"

definition localDay :: "zone \<Rightarrow> Date \<Rightarrow> int" where
  \<comment> \<open>the local calendar day of an instant, as days since 1970-01-01\<close>
  "localDay z t = LocalTime z t div msPerDay"

definition utcDay :: "Date \<Rightarrow> int" where
  "utcDay t = t div msPerDay"

definition localMidnight :: "zone \<Rightarrow> int \<Rightarrow> Date" where
  \<comment> \<open>\<open>new Date(str + 'T00:00:00')\<close> for the date input value \<open>str\<close> of calendar day \<open>d\<close>\<close>
  "localMidnight z d = UTC z (d * msPerDay)"

definition setHours0 :: "zone \<Rightarrow> Date \<Rightarrow> Date" where
  \<comment> \<open>\<open>date.setHours(0, 0, 0, 0)\<close>\<close>
  "setHours0 z t = localMidnight z (localDay z t)"

definition addOneDay :: "zone \<Rightarrow> Date \<Rightarrow> Date" where
  \<comment> \<open>\<open>cursor.setDate(cursor.getDate() + 1)\<close>: the same local time on the next day\<close>
  "addOneDay z t = UTC z (LocalTime z t + msPerDay)"

definition getDay :: "zone \<Rightarrow> Date \<Rightarrow> int" where
  \<comment> \<open>the local weekday, 0 for Sunday; 1970-01-01 was a Thursday\<close>
  "getDay z t = (localDay z t + 4) mod 7"

definition toDateString :: "zone \<Rightarrow> Date \<Rightarrow> int" where
  \<comment> \<open>\<open>toDateString()\<close> prints the local calendar day (weekday, month, day, year) and
      nothing else; the model keeps the day it prints\<close>
  "toDateString z t = localDay z t"

subsection \<open>The Gregorian calendar of \<open>toISOString\<close>\<close>

text \<open>
  Days are counted in eras of 400 years that start on 1 March: an era has 146097 days,
  its centuries 36524 (the fourth one day more), a cycle of four years 1461 and a year 365
  (the fourth one day more).
\<close>

definition eraOf :: "int \<Rightarrow> int" where
  "eraOf z = (z + 719468) div 146097"

definition dayOfEra :: "int \<Rightarrow> int" where
  "dayOfEra z = (z + 719468) mod 146097"

definition centuryOf :: "int \<Rightarrow> int" where
  "centuryOf r = min 3 (r div 36524)"

definition dayOfCentury :: "int \<Rightarrow> int" where
  "dayOfCentury r = r - centuryOf r * 36524"

definition cycleOf :: "int \<Rightarrow> int" where
  "cycleOf r = dayOfCentury r div 1461"

definition dayOfCycle :: "int \<Rightarrow> int" where
  "dayOfCycle r = dayOfCentury r mod 1461"

definition yearOfCycle :: "int \<Rightarrow> int" where
  "yearOfCycle r = min 3 (dayOfCycle r div 365)"

definition dayOfYear :: "int \<Rightarrow> int" where
  \<comment> \<open>the day of the year that starts on 1 March\<close>
  "dayOfYear r = dayOfCycle r - yearOfCycle r * 365"

definition yearOfEra :: "int \<Rightarrow> int" where
  "yearOfEra r = 100 * centuryOf r + 4 * cycleOf r + yearOfCycle r"

definition monthIndex :: "int \<Rightarrow> int" where
  \<comment> \<open>0 for March .. 11 for February\<close>
  "monthIndex doy = (5 * doy + 2) div 153"

definition monthOf :: "int \<Rightarrow> int" where
  "monthOf doy = (if monthIndex doy < 10 then monthIndex doy + 3 else monthIndex doy - 9)"

definition dateOf :: "int \<Rightarrow> int" where
  "dateOf doy = doy - (153 * monthIndex doy + 2) div 5 + 1"

definition civil :: "int \<Rightarrow> int \<times> int \<times> int" where
  \<comment> \<open>year, month (1..12) and day of the month of a day number\<close>
  "civil z =
     (400 * eraOf z + yearOfEra (dayOfEra z)
        + (if monthOf (dayOfYear (dayOfEra z)) \<le> 2 then 1 else 0),
      monthOf (dayOfYear (dayOfEra z)),
      dateOf (dayOfYear (dayOfEra z)))"

definition marchYear :: "int \<Rightarrow> int \<Rightarrow> int" where
  \<comment> \<open>the year that starts on 1 March in which the month \<open>m\<close> (1..12) of the year \<open>y\<close> lies\<close>
  "marchYear y m = (if m \<le> 2 then y - 1 else y)"

definition marchMonth :: "int \<Rightarrow> int" where
  "marchMonth m = (if 2 < m then m - 3 else m + 9)"

definition daysBeforeYear :: "int \<Rightarrow> int" where
  \<comment> \<open>the days of an era before its year \<open>y\<close>\<close>
  "daysBeforeYear y = 365 * y + y div 4 - y div 100"

definition makeDay :: "int \<Rightarrow> int \<Rightarrow> int \<Rightarrow> int" where
  \<comment> \<open>the day number of the day \<open>d\<close> of the month \<open>m\<close> (1..12) of the year \<open>y\<close>; a day past the
      end of the month runs on into the next\<close>
  "makeDay y m d =
     146097 * (marchYear y m div 400) + daysBeforeYear (marchYear y m mod 400)
       + (153 * marchMonth m + 2) div 5 + d - 1 - 719468"

definition getFullYear :: "zone \<Rightarrow> Date \<Rightarrow> int" where
  "getFullYear z t = fst (civil (localDay z t))"

definition dateOnly :: "zone \<Rightarrow> Date \<Rightarrow> Date" where
  \<comment> \<open>\<open>new Date(date.getFullYear(), date.getMonth(), date.getDate())\<close>: the constructor
      reads a year from 0 to 99 as a year of the twentieth century\<close>
  "dateOnly z t =
     (case civil (localDay z t) of
        (y, m, d) \<Rightarrow> localMidnight z (makeDay (if 0 \<le> y \<and> y \<le> 99 then 1900 + y else y) m d))"

definition digit :: "int \<Rightarrow> char" where
  "digit n = ''0123456789'' ! nat (n mod 10)"

definition pad2 :: "int \<Rightarrow> string" where
  "pad2 n = [digit (n div 10), digit n]"

definition pad4 :: "int \<Rightarrow> string" where
  "pad4 n = [digit (n div 1000), digit (n div 100), digit (n div 10), digit n]"

definition pad6 :: "int \<Rightarrow> string" where
  "pad6 n = [digit (n div 100000), digit (n div 10000), digit (n div 1000),
             digit (n div 100), digit (n div 10), digit n]"

definition isoYear :: "int \<Rightarrow> string" where
  \<comment> \<open>four digits for the years 0..9999, a sign and six digits otherwise\<close>
  "isoYear y =
     (if 0 \<le> y \<and> y \<le> 9999 then pad4 y
      else (if y < 0 then ''-'' else ''+'') @ pad6 \<bar>y\<bar>)"

definition isoDate :: "int \<Rightarrow> string" where
  \<comment> \<open>\<open>YYYY-MM-DD\<close> of a day number\<close>
  "isoDate z =
     (case civil z of (y, m, d) \<Rightarrow> isoYear y @ ''-'' @ pad2 m @ ''-'' @ pad2 d)"

definition isoDateOnly :: "Date \<Rightarrow> string" where
  \<comment> \<open>\<open>date.toISOString().split('T')[0]\<close>: the calendar day in UTC\<close>
  "isoDateOnly t = isoDate (utcDay t)"

section \<open>Validation utilities\<close>

subsection \<open>buildLockIds\<close>

definition lockId :: "string \<Rightarrow> Date \<Rightarrow> string" where
  \<comment> \<open>\<open>`${itemId}_${cursor.toISOString().split('T')[0]}`\<close>\<close>
  "lockId itemId cursor = itemId @ ''_'' @ isoDateOnly cursor"

function buildLockIds_loop :: "zone \<Rightarrow> string \<Rightarrow> Date \<Rightarrow> Date \<Rightarrow> string list \<Rightarrow> string list" where
  "buildLockIds_loop z itemId cursor end ids =
     (if cursor \<le> end
      then buildLockIds_loop z itemId (addOneDay z cursor) end (ids @ [lockId itemId cursor])
      else ids)"
  by pat_completeness auto
termination
  by (relation "measure (\<lambda>(z, itemId, cursor, end, ids). nat (end - cursor + 1))")
     (auto simp: addOneDay_def UTC_def LocalTime_def offsetAt_def offsetOf_def msPerDay_def
       msPerHour_def)

declare buildLockIds_loop.simps [simp del]

definition buildLockIds :: "zone \<Rightarrow> string \<Rightarrow> Date \<Rightarrow> Date \<Rightarrow> string list" where
  "buildLockIds z itemId startDate endDate =
     buildLockIds_loop z itemId (setHours0 z startDate) (setHours0 z endDate) []"

subsection \<open>Messages\<close>

text \<open>
  The texts shown to the user. Those that print a date in the browser's locale or a list
  of weekday names are kept with the values they print.
\<close>

datatype message =
    Text string
  | AvailableFrom Date
      \<comment> \<open>\<open>Item is only available from <date>\<close>\<close>
  | AvailableUntil Date
      \<comment> \<open>\<open>Item is only available until <date>\<close>\<close>
  | AvailableOn "int list"
      \<comment> \<open>\<open>Item is only available on: <days>\<close>\<close>
  | SameDayOnly "int list"
      \<comment> \<open>\<open>This item only allows same-day borrowing on: <days>. Please select the same
          date for pickup and return.\<close>\<close>
  | AvailableOnSelected "int list" int
      \<comment> \<open>\<open>This item is only available on: <days>. You selected: <day>\<close>\<close>

datatype validation = Valid | Invalid message

subsection \<open>Items\<close>

record availability =
  avail_type :: "string option"
  avail_startDate :: "Date option"
  avail_endDate :: "Date option"
  avail_daysOfWeek :: "int list option"

record item =
  item_ownerId :: string
  item_availability :: "availability option"

definition emptyAvailability :: availability where
  \<comment> \<open>the \<open>{}\<close> of \<open>item.availability || {}\<close>\<close>
  "emptyAvailability =
     \<lparr>avail_type = None, avail_startDate = None, avail_endDate = None,
      avail_daysOfWeek = None\<rparr>"

definition ALWAYS :: string where "ALWAYS = ''always''"
definition DATE_RANGE :: string where "DATE_RANGE = ''dateRange''"
definition RECURRING :: string where "RECURRING = ''recurring''"

definition orEmpty :: "int list option \<Rightarrow> int list" where
  \<comment> \<open>\<open>availability.daysOfWeek || []\<close>\<close>
  "orEmpty ds = (case ds of Some xs \<Rightarrow> xs | None \<Rightarrow> [])"

subsection \<open>validateAvailability\<close>

definition validateUntil :: "Date option \<Rightarrow> Date \<Rightarrow> validation" where
  \<comment> \<open>the second check of the date range branch, and its \<open>return { valid: true }\<close>\<close>
  "validateUntil availEnd requestedEnd =
     (case availEnd of
        Some e \<Rightarrow> if requestedEnd > e then Invalid (AvailableUntil e) else Valid
      | None \<Rightarrow> Valid)"

definition validateAvailability :: "zone \<Rightarrow> item \<Rightarrow> Date \<Rightarrow> Date \<Rightarrow> validation" where
  "validateAvailability z item requestedStart requestedEnd =
     (let availability =
            (case item_availability item of Some a \<Rightarrow> a | None \<Rightarrow> emptyAvailability)
      in
      if avail_type availability = Some ALWAYS then Valid
      else if avail_type availability = Some DATE_RANGE then
        (case avail_startDate availability of
           Some availStart \<Rightarrow>
             if requestedStart < availStart then Invalid (AvailableFrom availStart)
             else validateUntil (avail_endDate availability) requestedEnd
         | None \<Rightarrow> validateUntil (avail_endDate availability) requestedEnd)
      else if avail_type availability = Some RECURRING then
        (if toDateString z requestedStart \<noteq> toDateString z requestedEnd
         then Invalid (Text ''Recurring availability items can only be booked for same-day use'')
         else if getDay z requestedStart \<notin> set (orEmpty (avail_daysOfWeek availability))
         then Invalid (AvailableOn (orEmpty (avail_daysOfWeek availability)))
         else Valid)
      else Invalid (Text ''Unknown availability type''))"

subsection \<open>validateBookingDates\<close>

definition validateBookingDates :: "zone \<Rightarrow> Date \<Rightarrow> Date \<Rightarrow> Date \<Rightarrow> validation" where
  \<comment> \<open>\<open>now\<close> is the clock read by \<open>new Date()\<close>\<close>
  "validateBookingDates z now startDate endDate =
     (if startDate < setHours0 z now
      then Invalid (Text ''Start date cannot be in the past'')
      else if endDate < startDate
      then Invalid (Text ''End date must be after start date'')
      else Valid)"

section \<open>The document store\<close>

text \<open>
  Two collections of the store matter here: \<open>bookings\<close> and \<open>bookingLocks\<close>, each a map
  from document ids to documents. Of a booking document the fields that only feed the
  display (item name, names and e-mail addresses of renter and owner) are left out.
\<close>

record historyEntry =
  he_status :: string
  he_at :: Date
  he_by :: string

record booking =
  bk_itemId :: string
  bk_renterId :: string
  bk_ownerId :: string
  bk_startDate :: Date
  bk_endDate :: Date
  bk_status :: "string option"
  bk_statusHistory :: "historyEntry list"
  bk_lockIds :: "string list"
  bk_createdAt :: Date
  bk_updatedAt :: Date

record lock =
  lock_bookingId :: string
  lock_itemId :: string
  lock_date :: "string option"
  lock_ownerId :: string
  lock_createdAt :: Date

record store =
  bookings :: "string \<rightharpoonup> booking"
  bookingLocks :: "string \<rightharpoonup> lock"

text \<open>
  What a call reads from its surroundings: the zone and the clock of the browser, the
  clock of the server, the id the store generates for a new booking document, and
  whether the reads and the write of the call reach the store.
\<close>

record env =
  env_tz :: zone
  env_now :: Date
  serverTime :: Date
  newId :: string
  readsOk :: bool
  writeOk :: bool

record user =
  uid :: string

subsection \<open>Write batches\<close>

datatype batchWrite = SetBooking string booking | SetLock string lock

fun applyWrite :: "batchWrite \<Rightarrow> store \<Rightarrow> store" where
  "applyWrite (SetBooking i b) st = st\<lparr>bookings := (bookings st)(i \<mapsto> b)\<rparr>"
| "applyWrite (SetLock k l) st = st\<lparr>bookingLocks := (bookingLocks st)(k \<mapsto> l)\<rparr>"

definition commit :: "batchWrite list \<Rightarrow> store \<Rightarrow> store" where
  \<comment> \<open>\<open>batch.commit()\<close> when it succeeds: every write of the batch, in order\<close>
  "commit ws st = fold applyWrite ws st"

subsection \<open>Splitting a string\<close>

fun split :: "char \<Rightarrow> string \<Rightarrow> string list" where
  "split sep [] = [[]]"
| "split sep (c # cs) =
     (if c = sep then [] # split sep cs
      else (case split sep cs of
              [] \<Rightarrow> [[c]]
            | w # ws \<Rightarrow> (c # w) # ws))"

definition at :: "'a list \<Rightarrow> nat \<Rightarrow> 'a option" where
  \<comment> \<open>\<open>xs[i]\<close>, \<open>undefined\<close> out of range\<close>
  "at xs i = (if i < length xs then Some (xs ! i) else None)"

section \<open>Booking manager\<close>

datatype outcome =
    Rejected message
      \<comment> \<open>an alert and a return before anything is written\<close>
  | Failed
      \<comment> \<open>the \<open>catch\<close> branch: \<open>Failed to submit booking request. Please try again.\<close>\<close>
  | Created string
      \<comment> \<open>\<open>Booking request submitted successfully!\<close>, with the id of the booking\<close>

definition checkDateRange :: "zone \<Rightarrow> availability \<Rightarrow> Date \<Rightarrow> Date \<Rightarrow> message option" where
  \<comment> \<open>the branch \<open>availability.type === 'dateRange'\<close>; \<open>None\<close> when it does not return\<close>
  "checkDateRange z a startDate endDate =
     (if (case avail_startDate a of
            Some itemStartDate \<Rightarrow> dateOnly z startDate < dateOnly z itemStartDate
          | None \<Rightarrow> False)
      then map_option AvailableFrom (avail_startDate a)
      else if (case avail_endDate a of
                 Some itemEndDate \<Rightarrow> dateOnly z endDate > dateOnly z itemEndDate
               | None \<Rightarrow> False)
      then map_option AvailableUntil (avail_endDate a)
      else None)"

definition checkRecurring :: "zone \<Rightarrow> availability \<Rightarrow> Date \<Rightarrow> Date \<Rightarrow> message option" where
  \<comment> \<open>the branch \<open>availability.type === 'recurring'\<close>\<close>
  "checkRecurring z a startDate endDate =
     (let availableDays = orEmpty (avail_daysOfWeek a) in
      if isoDateOnly startDate \<noteq> isoDateOnly endDate
      then Some (SameDayOnly availableDays)
      else if getDay z startDate \<notin> set availableDays
      then Some (AvailableOnSelected availableDays (getDay z startDate))
      else None)"

definition checkAvailability :: "zone \<Rightarrow> item \<Rightarrow> Date \<Rightarrow> Date \<Rightarrow> message option" where
  \<comment> \<open>the block \<open>if (item.availability) { ... }\<close>\<close>
  "checkAvailability z item startDate endDate =
     (case item_availability item of
        None \<Rightarrow> None
      | Some a \<Rightarrow>
          if avail_type a = Some ''dateRange'' then checkDateRange z a startDate endDate
          else if avail_type a = Some ''recurring'' then checkRecurring z a startDate endDate
          else None)"

definition newBooking :: "env \<Rightarrow> user \<Rightarrow> string \<Rightarrow> item \<Rightarrow> Date \<Rightarrow> Date \<Rightarrow> string list \<Rightarrow> booking" where
  "newBooking e u currentItemId item startDate endDate ids =
     \<lparr>bk_itemId = currentItemId, bk_renterId = uid u, bk_ownerId = item_ownerId item,
      bk_startDate = startDate, bk_endDate = endDate, bk_status = Some ''pending'',
      bk_statusHistory = [\<lparr>he_status = ''pending'', he_at = env_now e, he_by = uid u\<rparr>],
      bk_lockIds = ids, bk_createdAt = serverTime e, bk_updatedAt = serverTime e\<rparr>"

definition newLock :: "env \<Rightarrow> string \<Rightarrow> item \<Rightarrow> string \<Rightarrow> lock" where
  "newLock e currentItemId item k =
     \<lparr>lock_bookingId = newId e, lock_itemId = currentItemId,
      lock_date = at (split CHR ''_'' k) 1, lock_ownerId = item_ownerId item,
      lock_createdAt = serverTime e\<rparr>"

definition existingLocks :: "store \<Rightarrow> string list \<Rightarrow> string list" where
  \<comment> \<open>the ids whose snapshot \<open>exists()\<close>\<close>
  "existingLocks st ids = filter (\<lambda>k. bookingLocks st k \<noteq> None) ids"

definition prepareBooking ::
  "env \<Rightarrow> user option \<Rightarrow> string \<Rightarrow> item option \<Rightarrow> int option \<Rightarrow> int option \<Rightarrow> store
     \<Rightarrow> outcome + batchWrite list" where
  \<comment> \<open>\<open>submitBookingRequest\<close> up to its last suspension point, \<open>await batch.commit()\<close>:
      the outcome when it returns before, the batch it has built otherwise. The two form
      values are the calendar days picked in the date inputs, \<open>None\<close> when left empty.\<close>
  "prepareBooking e currentUser currentItemId itemData startDateStr endDateStr st =
     (case currentUser of
        None \<Rightarrow> Inl (Rejected (Text ''You must be logged in to submit a booking request''))
      | Some u \<Rightarrow>
     (case itemData of
        None \<Rightarrow> Inl (Rejected (Text ''Item not found''))
      | Some item \<Rightarrow>
     if item_ownerId item = uid u
     then Inl (Rejected (Text ''You cannot book your own item.''))
     else
     (case (startDateStr, endDateStr) of
        (Some ds, Some de) \<Rightarrow>
          (let startDate = localMidnight (env_tz e) ds; endDate = localMidnight (env_tz e) de in
           case validateBookingDates (env_tz e) (env_now e) startDate endDate of
             Invalid m \<Rightarrow> Inl (Rejected m)
           | Valid \<Rightarrow>
          (case checkAvailability (env_tz e) item startDate endDate of
             Some m \<Rightarrow> Inl (Rejected m)
           | None \<Rightarrow>
          (let ids = buildLockIds (env_tz e) currentItemId startDate endDate in
           if \<not> readsOk e then Inl Failed
           else if existingLocks st ids \<noteq> []
           then Inl (Rejected (Text ''Sorry, some of the dates you selected are already booked by others. Please choose different dates.''))
           else Inr (SetBooking (newId e) (newBooking e u currentItemId item startDate endDate ids)
                     # map (\<lambda>k. SetLock k (newLock e currentItemId item k)) ids))))
      | _ \<Rightarrow> Inl (Rejected (Text ''Please select both start and end dates'')))))"

definition commitBooking :: "env \<Rightarrow> batchWrite list \<Rightarrow> store \<Rightarrow> outcome \<times> store" where
  \<comment> \<open>\<open>await batch.commit()\<close> and what follows it\<close>
  "commitBooking e ws st =
     (if writeOk e then (Created (newId e), commit ws st) else (Failed, st))"

definition submitBookingRequest ::
  "env \<Rightarrow> user option \<Rightarrow> string \<Rightarrow> item option \<Rightarrow> int option \<Rightarrow> int option \<Rightarrow> store
     \<Rightarrow> outcome \<times> store" where
  "submitBookingRequest e currentUser currentItemId itemData startDateStr endDateStr st =
     (case prepareBooking e currentUser currentItemId itemData startDateStr endDateStr st of
        Inl r \<Rightarrow> (r, st)
      | Inr ws \<Rightarrow> commitBooking e ws st)"

subsection \<open>Two calls in flight\<close>

text \<open>
  A call of \<open>submitBookingRequest\<close> gives up control while it awaits the lock reads and
  while it awaits the commit. Between the two another call can run. A call is therefore
  two steps on the shared store: the one that ends with the reads answered and the batch
  built, and the commit.
\<close>

record request =
  rq_env :: env
  rq_user :: "user option"
  rq_itemId :: string
  rq_item :: "item option"
  rq_start :: "int option"
  rq_end :: "int option"

datatype task = Waiting | Checked "batchWrite list" | Finished outcome

fun stepTask :: "request \<Rightarrow> task \<Rightarrow> store \<Rightarrow> task \<times> store" where
  "stepTask r Waiting st =
     (case prepareBooking (rq_env r) (rq_user r) (rq_itemId r) (rq_item r)
             (rq_start r) (rq_end r) st of
        Inl out \<Rightarrow> (Finished out, st)
      | Inr ws \<Rightarrow> (Checked ws, st))"
| "stepTask r (Checked ws) st =
     (case commitBooking (rq_env r) ws st of (out, st') \<Rightarrow> (Finished out, st'))"
| "stepTask r (Finished out) st = (Finished out, st)"

fun run :: "request \<Rightarrow> request \<Rightarrow> bool list \<Rightarrow> task \<times> task \<times> store \<Rightarrow> task \<times> task \<times> store" where
  \<comment> \<open>a schedule names, step by step, the call that moves: \<open>False\<close> the first\<close>
  "run r1 r2 [] c = c"
| "run r1 r2 (False # sched) (t1, t2, st) =
     (case stepTask r1 t1 st of (t1', st') \<Rightarrow> run r1 r2 sched (t1', t2, st'))"
| "run r1 r2 (True # sched) (t1, t2, st) =
     (case stepTask r2 t2 st of (t2', st') \<Rightarrow> run r1 r2 sched (t1, t2', st'))"

definition liveLockHolders :: "store \<Rightarrow> string \<Rightarrow> string list \<Rightarrow> string list" where
  \<comment> \<open>among the bookings named, those pending or accepted that hold the lock id \<open>k\<close>\<close>
  "liveLockHolders st k bs =
     filter (\<lambda>i. case bookings st i of
                    None \<Rightarrow> False
                  | Some b \<Rightarrow> k \<in> set (bk_lockIds b)
                      \<and> (bk_status b = Some ''pending'' \<or> bk_status b = Some ''accepted'')) bs"

section \<open>Item manager: the bookings of the dashboards\<close>

subsection \<open>handleBookingAction\<close>

datatype actionOutcome =
    Ignored
      \<comment> \<open>a return without a word\<close>
  | Updated
      \<comment> \<open>\<open>Booking request accepted successfully!\<close> or \<open>... declined ...\<close>\<close>
  | UpdateFailed
      \<comment> \<open>\<open>Failed to update booking. Please try again.\<close>\<close>

definition arrayUnion :: "'a list \<Rightarrow> 'a \<Rightarrow> 'a list" where
  \<comment> \<open>the store adds the element unless the array holds an equal one\<close>
  "arrayUnion xs x = (if x \<in> set xs then xs else xs @ [x])"

definition handleBookingAction ::
  "env \<Rightarrow> user option \<Rightarrow> string \<Rightarrow> string \<Rightarrow> store \<Rightarrow> actionOutcome \<times> store" where
  \<comment> \<open>\<open>updateDoc\<close> fails when the store is not reached or holds no such document\<close>
  "handleBookingAction e currentUser bookingId newStatus st =
     (if newStatus \<notin> set [''accepted'', ''declined''] then (Ignored, st)
      else
        (case currentUser of
           None \<Rightarrow> (Ignored, st)
         | Some u \<Rightarrow>
             (case (if writeOk e then bookings st bookingId else None) of
                None \<Rightarrow> (UpdateFailed, st)
              | Some b \<Rightarrow>
                  (Updated,
                   st\<lparr>bookings := (bookings st)(bookingId \<mapsto>
                        b\<lparr>bk_status := Some newStatus,
                          bk_statusHistory :=
                            arrayUnion (bk_statusHistory b)
                              \<lparr>he_status = newStatus, he_at = env_now e, he_by = uid u\<rparr>,
                          bk_updatedAt := serverTime e\<rparr>)\<rparr>))))"

subsection \<open>Grouping by status\<close>

record groups =
  g_pending :: "(string \<times> booking) list"
  g_accepted :: "(string \<times> booking) list"
  g_declined :: "(string \<times> booking) list"
  g_archived :: "(string \<times> booking) list"

definition noGroups :: groups where
  "noGroups = \<lparr>g_pending = [], g_accepted = [], g_declined = [], g_archived = []\<rparr>"

datatype property = Own "(string \<times> booking) list" | Inherited | Missing

definition objectPrototype :: "string list" where
  \<comment> \<open>the names every object literal answers to without having them\<close>
  "objectPrototype =
     [''constructor'', ''__defineGetter__'', ''__defineSetter__'', ''hasOwnProperty'',
      ''__lookupGetter__'', ''__lookupSetter__'', ''isPrototypeOf'',
      ''propertyIsEnumerable'', ''toString'', ''valueOf'', ''__proto__'',
      ''toLocaleString'']"

definition getGroup :: "groups \<Rightarrow> string \<Rightarrow> property" where
  \<comment> \<open>\<open>groups[status]\<close>\<close>
  "getGroup g s =
     (if s = ''pending'' then Own (g_pending g)
      else if s = ''accepted'' then Own (g_accepted g)
      else if s = ''declined'' then Own (g_declined g)
      else if s = ''archived'' then Own (g_archived g)
      else if s \<in> set objectPrototype then Inherited
      else Missing)"

definition pushGroup :: "groups \<Rightarrow> string \<Rightarrow> string \<times> booking \<Rightarrow> groups option" where
  \<comment> \<open>\<open>groups[status].push(booking)\<close>; \<open>None\<close> is the TypeError of calling a \<open>push\<close>
      that is not there\<close>
  "pushGroup g s b =
     (if s = ''pending'' then Some (g\<lparr>g_pending := g_pending g @ [b]\<rparr>)
      else if s = ''accepted'' then Some (g\<lparr>g_accepted := g_accepted g @ [b]\<rparr>)
      else if s = ''declined'' then Some (g\<lparr>g_declined := g_declined g @ [b]\<rparr>)
      else if s = ''archived'' then Some (g\<lparr>g_archived := g_archived g @ [b]\<rparr>)
      else None)"

definition statusOf :: "booking \<Rightarrow> string" where
  \<comment> \<open>\<open>normalized || 'pending'\<close>, a missing and an empty status being falsy\<close>
  "statusOf b =
     (let normalized = (if bk_status b = Some ''confirmed'' then Some ''accepted'' else bk_status b)
      in case normalized of
           None \<Rightarrow> ''pending''
         | Some s \<Rightarrow> if s = [] then ''pending'' else s)"

definition groupMine :: "groups \<Rightarrow> string \<times> booking \<Rightarrow> groups option" where
  \<comment> \<open>the body of \<open>snapshot.forEach\<close> in \<open>loadMyBookings\<close>\<close>
  "groupMine g b =
     (case getGroup g (statusOf (snd b)) of
        Missing \<Rightarrow> Some g
      | _ \<Rightarrow> pushGroup g (statusOf (snd b)) b)"

definition groupOwner :: "Date \<Rightarrow> groups \<Rightarrow> string \<times> booking \<Rightarrow> groups option" where
  \<comment> \<open>the body of \<open>snapshot.forEach\<close> in \<open>loadOwnerBookings\<close>\<close>
  "groupOwner today g b =
     (let status = statusOf (snd b) in
      if (status = ''accepted'' \<or> status = ''pending'') \<and> bk_endDate (snd b) < today
      then pushGroup g ''archived'' b
      else (case getGroup g status of
              Missing \<Rightarrow> pushGroup g ''archived'' b
            | _ \<Rightarrow> pushGroup g status b))"

fun forEach :: "('s \<Rightarrow> 'a \<Rightarrow> 's option) \<Rightarrow> 'a list \<Rightarrow> 's \<Rightarrow> 's option" where
  \<comment> \<open>a throw in the body ends the loop\<close>
  "forEach f [] g = Some g"
| "forEach f (x # xs) g = (case f g x of None \<Rightarrow> None | Some g' \<Rightarrow> forEach f xs g')"

definition loadMyBookings :: "(string \<times> booking) list \<Rightarrow> groups option" where
  \<comment> \<open>the groups rendered from the documents the query returned; \<open>None\<close> when the
      \<open>catch\<close> branch reports an error instead\<close>
  "loadMyBookings snapshot = forEach groupMine snapshot noGroups"

definition loadOwnerBookings :: "zone \<Rightarrow> Date \<Rightarrow> (string \<times> booking) list \<Rightarrow> groups option" where
  "loadOwnerBookings z now snapshot = forEach (groupOwner (setHours0 z now)) snapshot noGroups"

definition actionButtons :: "groups \<Rightarrow> string list" where
  \<comment> \<open>the bookings that the owner's dashboard renders with the buttons to accept and to
      decline: those of the pending group\<close>
  "actionButtons g = map fst (g_pending g)"

section \<open>Notions used by the properties\<close>

definition noPolicy :: "item \<Rightarrow> bool" where
  \<comment> \<open>the item has no availability field, or one whose type is none of the three known\<close>
  "noPolicy item \<longleftrightarrow>
     (case item_availability item of
        None \<Rightarrow> True
      | Some a \<Rightarrow> avail_type a \<notin> {Some ''always'', Some ''dateRange'', Some ''recurring''})"

definition hasPolicy :: "item \<Rightarrow> string \<Rightarrow> availability \<Rightarrow> bool" where
  \<comment> \<open>the availability of the item is \<open>a\<close>, of type \<open>t\<close>\<close>
  "hasPolicy item t a \<longleftrightarrow> item_availability item = Some a \<and> avail_type a = Some t"

definition validDate :: "Date \<Rightarrow> bool" where
  \<comment> \<open>the time values a \<open>Date\<close> can hold: 100 million days on either side of 1970\<close>
  "validDate t \<longleftrightarrow> \<bar>t\<bar> \<le> 8640000000000000"


section \<open>Sample data\<close>

text \<open>
  The inputs of the worked cases below. Day 20240 is Sunday 1 June 2025, day 20249 is
  Tuesday 10 June 2025; the clock of a browser stands at ten in the morning of 1 June.
\<close>

definition emptyStore :: store where
  "emptyStore = \<lparr>bookings = Map.empty, bookingLocks = Map.empty\<rparr>"

definition browser :: "zone \<Rightarrow> string \<Rightarrow> env" where
  "browser z bid =
     \<lparr>env_tz = z, env_now = localMidnight z 20240 + 36000000,
      serverTime = 1748772000000, newId = bid, readsOk = True, writeOk = True\<rparr>"

definition ann :: user where "ann = \<lparr>uid = ''ann''\<rparr>"
definition bob :: user where "bob = \<lparr>uid = ''bob''\<rparr>"
definition olga :: user where "olga = \<lparr>uid = ''olga''\<rparr>"

definition policy :: "string \<Rightarrow> Date option \<Rightarrow> Date option \<Rightarrow> int list option \<Rightarrow> availability" where
  "policy t s e ds =
     \<lparr>avail_type = Some t, avail_startDate = s, avail_endDate = e, avail_daysOfWeek = ds\<rparr>"

definition olgasItem :: "availability option \<Rightarrow> item" where
  "olgasItem a = \<lparr>item_ownerId = ''olga'', item_availability = a\<rparr>"

definition request1 :: request where
  \<comment> \<open>Ann asks for 10 and 11 June\<close>
  "request1 =
     \<lparr>rq_env = browser (fixed 0) ''b1'', rq_user = Some ann, rq_itemId = ''item1'',
      rq_item = Some (olgasItem None), rq_start = Some 20249, rq_end = Some 20250\<rparr>"

definition request2 :: request where
  \<comment> \<open>Bob asks for 11 and 12 June\<close>
  "request2 =
     \<lparr>rq_env = browser (fixed 0) ''b2'', rq_user = Some bob, rq_itemId = ''item1'',
      rq_item = Some (olgasItem None), rq_start = Some 20250, rq_end = Some 20251\<rparr>"

definition sampleBooking :: "string \<Rightarrow> int \<Rightarrow> booking" where
  \<comment> \<open>a booking by Ann of Olga's item, with a status, for the one day \<open>d\<close>\<close>
  "sampleBooking s d =
     \<lparr>bk_itemId = ''item1'', bk_renterId = ''ann'', bk_ownerId = ''olga'',
      bk_startDate = localMidnight (fixed 0) d, bk_endDate = localMidnight (fixed 0) d,
      bk_status = Some s,
      bk_statusHistory = [\<lparr>he_status = ''pending'', he_at = 1748000000000, he_by = ''ann''\<rparr>],
      bk_lockIds = [lockId ''item1'' (localMidnight (fixed 0) d)],
      bk_createdAt = 1748000000000, bk_updatedAt = 1748000000000\<rparr>"

definition london :: zone where
  \<comment> \<open>London in 2025: summer time from 30 March, 01:00 UTC, to 26 October, 01:00 UTC\<close>
  "london = \<lparr>standard = 0, summer = Some (1743296400000, 1761440400000)\<rparr>"

definition londonBrowser :: env where
  \<comment> \<open>a browser in London, its clock at ten in the morning of 1 March 2025 (day 20148)\<close>
  "londonBrowser =
     \<lparr>env_tz = london, env_now = 1740823200000, serverTime = 1740823200000,
      newId = ''b1'', readsOk = True, writeOk = True\<rparr>"

lemmas sample_defs = emptyStore_def browser_def ann_def bob_def olga_def policy_def
  olgasItem_def fixed_def

lemmas submit_defs = prepareBooking_def commitBooking_def submitBookingRequest_def
  validateBookingDates_def checkAvailability_def checkDateRange_def checkRecurring_def
  existingLocks_def newBooking_def newLock_def commit_def at_def orEmpty_def

section \<open>Properties of the dates\<close>

lemmas date_defs = msPerDay_def msPerHour_def offsetMs_def inSummer_def offsetAt_def
  offsetOf_def LocalTime_def UTC_def localDay_def utcDay_def localMidnight_def setHours0_def
  addOneDay_def getDay_def toDateString_def getFullYear_def dateOnly_def marchYear_def
  marchMonth_def daysBeforeYear_def makeDay_def

lemmas civil_defs = eraOf_def dayOfEra_def centuryOf_def dayOfCentury_def cycleOf_def
  dayOfCycle_def yearOfCycle_def dayOfYear_def yearOfEra_def monthIndex_def monthOf_def
  dateOf_def civil_def

lemmas iso_defs = digit_def pad2_def pad4_def pad6_def isoYear_def isoDate_def isoDateOnly_def

text \<open>In every zone the local midnights follow the order of the days.\<close>

lemma localMidnight_bounds:
  "d * msPerDay - offsetMs (standard z) - msPerHour \<le> localMidnight z d"
  "localMidnight z d \<le> d * msPerDay - offsetMs (standard z)"
  by (simp_all add: localMidnight_def UTC_def offsetOf_def msPerHour_def)

lemma localMidnight_mono:
  assumes "a < b"
  shows "localMidnight z a < localMidnight z b"
proof -
  have "a * msPerDay + msPerDay \<le> b * msPerDay"
    using assms by (simp add: msPerDay_def)
  then show ?thesis
    using localMidnight_bounds(2) [of z a] localMidnight_bounds(1) [of b z]
    by (simp add: msPerDay_def msPerHour_def)
qed

lemma localMidnight_less: "localMidnight z a < localMidnight z b \<longleftrightarrow> a < b"
  using localMidnight_mono [of a b z] localMidnight_mono [of b a z]
  by (cases a b rule: linorder_cases) auto

lemma localMidnight_le: "localMidnight z a \<le> localMidnight z b \<longleftrightarrow> a \<le> b"
  using localMidnight_less [of z b a] by auto


text \<open>A zone without summer time has one offset.\<close>

lemma constant_offset:
  assumes "summer z = None"
  shows "offsetAt z t = offsetMs (standard z)" "offsetOf z l = offsetMs (standard z)"
  using assms by (simp_all add: offsetAt_def offsetOf_def inSummer_def)


lemma constant_localMidnight:
  assumes "summer z = None"
  shows "localMidnight z d = d * msPerDay - offsetMs (standard z)"
  by (simp add: localMidnight_def UTC_def constant_offset [OF assms])

lemma constant_localDay:
  assumes "summer z = None"
  shows "localDay z t = (t + offsetMs (standard z)) div msPerDay"
  by (simp add: localDay_def LocalTime_def constant_offset [OF assms])

lemma localDay_localMidnight:
  assumes "summer z = None"
  shows "localDay z (localMidnight z d) = d"
  by (simp add: constant_localDay [OF assms] constant_localMidnight [OF assms] msPerDay_def)

lemma setHours0_localMidnight:
  assumes "summer z = None"
  shows "setHours0 z (localMidnight z d) = localMidnight z d"
  by (simp add: setHours0_def localDay_localMidnight [OF assms])

lemma addOneDay_localMidnight:
  assumes "summer z = None"
  shows "addOneDay z (localMidnight z d) = localMidnight z (d + 1)"
  by (simp add: addOneDay_def UTC_def LocalTime_def constant_offset [OF assms]
      constant_localMidnight [OF assms] algebra_simps)

lemma utcDay_localMidnight:
  assumes "summer z = None"
  shows "utcDay (localMidnight z d) = d + (- offsetMs (standard z)) div msPerDay"
proof -
  have "(- offsetMs (standard z) + d * msPerDay) div msPerDay
          = d + (- offsetMs (standard z)) div msPerDay"
    by (simp add: msPerDay_def)
  then show ?thesis
    by (simp add: utcDay_def constant_localMidnight [OF assms] algebra_simps)
qed

lemma utcDay_localMidnight_west:
  assumes "summer z = None" "- 1440 < standard z" "standard z \<le> 0"
  shows "utcDay (localMidnight z d) = d"
  using assms(2,3) by (simp add: utcDay_localMidnight [OF assms(1)] offsetMs_def msPerDay_def)

lemma utcDay_localMidnight_east:
  assumes "summer z = None" "0 < standard z" "standard z \<le> 1440"
  shows "utcDay (localMidnight z d) = d - 1"
proof -
  have "(- (standard z * 60000)) div 86400000 = - 1"
    using assms(2,3) by (simp add: div_eq_minus1)
  then show ?thesis
    by (simp add: utcDay_localMidnight [OF assms(1)] offsetMs_def msPerDay_def)
qed

lemma less_setHours0:
  assumes "summer z = None"
  shows "t < setHours0 z now \<longleftrightarrow> localDay z t < localDay z now"
proof -
  have "a < k * 86400000 \<longleftrightarrow> a div 86400000 < k" for a k :: int
    by linarith
  from this [of "t + offsetMs (standard z)" "(now + offsetMs (standard z)) div 86400000"]
  show ?thesis
    by (simp add: setHours0_def constant_localMidnight [OF assms] constant_localDay [OF assms]
        msPerDay_def algebra_simps)
qed

section \<open>Properties of the calendar\<close>

text \<open>
  Two days have the same year, month and day of the month only when they are the same
  day, and two valid dates print the same ISO date only when they fall on the same day
  in UTC.
\<close>

lemma dayOfEra_range: "0 \<le> dayOfEra z" "dayOfEra z < 146097"
  by (simp_all add: dayOfEra_def)

lemma era_split: "z + 719468 = 146097 * eraOf z + dayOfEra z"
  by (simp add: eraOf_def dayOfEra_def)

lemma century_range:
  assumes "0 \<le> r" "r < 146097"
  shows "0 \<le> centuryOf r" "centuryOf r \<le> 3" "0 \<le> dayOfCentury r" "dayOfCentury r \<le> 36524"
    "centuryOf r < 3 \<Longrightarrow> dayOfCentury r < 36524"
  using assms unfolding centuryOf_def dayOfCentury_def by linarith+

lemma cycle_range:
  assumes "0 \<le> r" "r < 146097"
  shows "0 \<le> cycleOf r" "cycleOf r \<le> 24" "0 \<le> dayOfCycle r" "dayOfCycle r < 1461"
  using century_range [OF assms] unfolding cycleOf_def dayOfCycle_def by linarith+

lemma year_range:
  assumes "0 \<le> r" "r < 146097"
  shows "0 \<le> yearOfCycle r" "yearOfCycle r \<le> 3" "0 \<le> dayOfYear r" "dayOfYear r \<le> 365"
  using cycle_range [OF assms] unfolding yearOfCycle_def dayOfYear_def by linarith+

lemma era_day_split:
  "r = 36524 * centuryOf r + 1461 * cycleOf r + 365 * yearOfCycle r + dayOfYear r"
  by (simp add: dayOfYear_def dayOfCycle_def cycleOf_def dayOfCentury_def)

lemma yearOfEra_range:
  assumes "0 \<le> r" "r < 146097"
  shows "0 \<le> yearOfEra r" "yearOfEra r \<le> 399"
  using century_range [OF assms] cycle_range [OF assms] year_range [OF assms]
  unfolding yearOfEra_def by linarith+

lemma monthIndex_range:
  assumes "0 \<le> doy" "doy \<le> 365"
  shows "0 \<le> monthIndex doy" "monthIndex doy \<le> 11"
  using assms unfolding monthIndex_def by linarith+

lemma monthOf_range:
  assumes "0 \<le> doy" "doy \<le> 365"
  shows "1 \<le> monthOf doy" "monthOf doy \<le> 12"
  using monthIndex_range [OF assms] unfolding monthOf_def by simp_all

lemma dateOf_range:
  assumes "0 \<le> doy" "doy \<le> 365"
  shows "1 \<le> dateOf doy" "dateOf doy \<le> 31"
  using assms unfolding dateOf_def monthIndex_def by linarith+


lemma yearOfEra_inj:
  assumes "0 \<le> r" "r < 146097" "0 \<le> s" "s < 146097"
    and "yearOfEra r = yearOfEra s"
  shows "centuryOf r = centuryOf s \<and> cycleOf r = cycleOf s \<and> yearOfCycle r = yearOfCycle s"
proof -
  note r = century_range(1,2) [OF assms(1,2)] cycle_range(1,2) [OF assms(1,2)]
    year_range(1,2) [OF assms(1,2)]
  note s = century_range(1,2) [OF assms(3,4)] cycle_range(1,2) [OF assms(3,4)]
    year_range(1,2) [OF assms(3,4)]
  have c: "centuryOf r = centuryOf s"
    using r s assms(5) unfolding yearOfEra_def by linarith
  have q: "cycleOf r = cycleOf s"
    using r s c assms(5) unfolding yearOfEra_def by linarith
  have "yearOfCycle r = yearOfCycle s"
    using c q assms(5) unfolding yearOfEra_def by linarith
  with c q show ?thesis by simp
qed

lemma monthOf_inj:
  assumes "0 \<le> a" "a \<le> 365" "0 \<le> b" "b \<le> 365"
    and "monthOf a = monthOf b" and "dateOf a = dateOf b"
  shows "a = b"
proof -
  have "monthIndex a = monthIndex b"
    using monthIndex_range [OF assms(1,2)] monthIndex_range [OF assms(3,4)] assms(5)
    unfolding monthOf_def by (simp split: if_splits)
  with assms(6) show ?thesis unfolding dateOf_def by simp
qed

lemma civil_inj:
  assumes "civil y = civil z"
  shows "y = z"
proof -
  let ?r = "dayOfEra y" and ?s = "dayOfEra z"
  note r = dayOfEra_range [of y] and s = dayOfEra_range [of z]
  from assms have "fst (snd (civil y)) = fst (snd (civil z))"
    and "snd (snd (civil y)) = snd (snd (civil z))" and "fst (civil y) = fst (civil z)"
    by simp_all
  then have m: "monthOf (dayOfYear ?r) = monthOf (dayOfYear ?s)"
    and d: "dateOf (dayOfYear ?r) = dateOf (dayOfYear ?s)"
    and yr: "400 * eraOf y + yearOfEra ?r + (if monthOf (dayOfYear ?r) \<le> 2 then 1 else 0)
           = 400 * eraOf z + yearOfEra ?s + (if monthOf (dayOfYear ?s) \<le> 2 then 1 else 0)"
    by (simp_all add: civil_def)
  have doy: "dayOfYear ?r = dayOfYear ?s"
    using year_range(3,4) [OF r] year_range(3,4) [OF s] m d by (rule monthOf_inj)
  from yr m have sum: "400 * eraOf y + yearOfEra ?r = 400 * eraOf z + yearOfEra ?s" by simp
  then have e: "eraOf y = eraOf z"
    using yearOfEra_range [OF r] yearOfEra_range [OF s] by linarith
  with sum have yoe: "yearOfEra ?r = yearOfEra ?s" by simp
  from yearOfEra_inj [OF r s yoe] doy have "?r = ?s"
    using era_day_split [of ?r] era_day_split [of ?s] by simp
  with e show ?thesis using era_split [of y] era_split [of z] by simp
qed



lemma digit_eq_iff: "digit a = digit b \<longleftrightarrow> a mod 10 = b mod 10"
proof -
  have "distinct ''0123456789''" by simp
  moreover have "nat (a mod 10) < length ''0123456789''" "nat (b mod 10) < length ''0123456789''"
    by simp_all
  ultimately have "digit a = digit b \<longleftrightarrow> nat (a mod 10) = nat (b mod 10)"
    unfolding digit_def by (rule nth_eq_iff_index_eq)
  then show ?thesis by (simp add: eq_nat_nat_iff)
qed

lemma same_digits:
  fixes x y :: int
  assumes "x div 10 = y div 10" "x mod 10 = y mod 10"
  shows "x = y"
  by (metis assms div_mult_mod_eq)

lemma pad2_inj:
  assumes "pad2 a = pad2 b" "0 \<le> a" "a < 100" "0 \<le> b" "b < 100"
  shows "a = b"
proof -
  from assms(1) have 1: "a div 10 mod 10 = b div 10 mod 10" and 0: "a mod 10 = b mod 10"
    by (simp_all add: pad2_def digit_eq_iff)
  have "a div 10 mod 10 = a div 10" "b div 10 mod 10 = b div 10"
    using assms(2-5) by simp_all
  with 1 have "a div 10 = b div 10" by simp
  then show ?thesis using 0 by (rule same_digits)
qed

lemma pad4_inj:
  assumes "pad4 a = pad4 b" "0 \<le> a" "a < 10000" "0 \<le> b" "b < 10000"
  shows "a = b"
proof -
  from assms(1) have 3: "a div 1000 mod 10 = b div 1000 mod 10"
    and 2: "a div 100 mod 10 = b div 100 mod 10"
    and 1: "a div 10 mod 10 = b div 10 mod 10" and 0: "a mod 10 = b mod 10"
    by (simp_all add: pad4_def digit_eq_iff)
  have "a div 1000 mod 10 = a div 1000" "b div 1000 mod 10 = b div 1000"
    using assms(2-5) by simp_all
  with 3 have "a div 1000 = b div 1000" by simp
  then have "a div 100 div 10 = b div 100 div 10" by (simp add: zdiv_zmult2_eq [symmetric])
  then have "a div 100 = b div 100" using 2 by (rule same_digits)
  then have "a div 10 div 10 = b div 10 div 10" by (simp add: zdiv_zmult2_eq [symmetric])
  then have "a div 10 = b div 10" using 1 by (rule same_digits)
  then show ?thesis using 0 by (rule same_digits)
qed

lemma pad6_inj:
  assumes "pad6 a = pad6 b" "0 \<le> a" "a < 1000000" "0 \<le> b" "b < 1000000"
  shows "a = b"
proof -
  from assms(1) have 5: "a div 100000 mod 10 = b div 100000 mod 10"
    and 4: "a div 10000 mod 10 = b div 10000 mod 10"
    and 3: "a div 1000 mod 10 = b div 1000 mod 10"
    and 2: "a div 100 mod 10 = b div 100 mod 10"
    and 1: "a div 10 mod 10 = b div 10 mod 10" and 0: "a mod 10 = b mod 10"
    by (simp_all add: pad6_def digit_eq_iff)
  have "a div 100000 mod 10 = a div 100000" "b div 100000 mod 10 = b div 100000"
    using assms(2-5) by simp_all
  with 5 have "a div 100000 = b div 100000" by simp
  then have "a div 10000 div 10 = b div 10000 div 10" by (simp add: zdiv_zmult2_eq [symmetric])
  then have "a div 10000 = b div 10000" using 4 by (rule same_digits)
  then have "a div 1000 div 10 = b div 1000 div 10" by (simp add: zdiv_zmult2_eq [symmetric])
  then have "a div 1000 = b div 1000" using 3 by (rule same_digits)
  then have "a div 100 div 10 = b div 100 div 10" by (simp add: zdiv_zmult2_eq [symmetric])
  then have "a div 100 = b div 100" using 2 by (rule same_digits)
  then have "a div 10 div 10 = b div 10 div 10" by (simp add: zdiv_zmult2_eq [symmetric])
  then have "a div 10 = b div 10" using 1 by (rule same_digits)
  then show ?thesis using 0 by (rule same_digits)
qed


lemma length_isoYear: "length (isoYear y) = (if 0 \<le> y \<and> y \<le> 9999 then 4 else 7)"
  by (simp add: isoYear_def pad4_def pad6_def)

lemma isoYear_inj:
  assumes "isoYear x = isoYear y" "\<bar>x\<bar> < 1000000" "\<bar>y\<bar> < 1000000"
  shows "x = y"
proof (cases "0 \<le> x \<and> x \<le> 9999")
  case True
  then have y: "0 \<le> y \<and> y \<le> 9999"
    using arg_cong [OF assms(1), of length] by (simp add: length_isoYear split: if_splits)
  with True assms(1) have "pad4 x = pad4 y" by (simp add: isoYear_def)
  then show ?thesis using True y by (intro pad4_inj) simp_all
next
  case False
  then have y: "\<not> (0 \<le> y \<and> y \<le> 9999)"
    using arg_cong [OF assms(1), of length] by (simp add: length_isoYear split: if_splits)
  with False assms(1) have sign: "x < 0 \<longleftrightarrow> y < 0" and "pad6 \<bar>x\<bar> = pad6 \<bar>y\<bar>"
    by (auto simp: isoYear_def split: if_splits)
  then have "\<bar>x\<bar> = \<bar>y\<bar>" using assms(2,3) by (intro pad6_inj) simp_all
  with sign show ?thesis by linarith
qed

lemma year_bound:
  assumes "\<bar>z\<bar> \<le> 100000000"
  shows "\<bar>fst (civil z)\<bar> < 1000000"
proof -
  have "- 690 \<le> eraOf z" "eraOf z \<le> 690" using assms unfolding eraOf_def by linarith+
  with yearOfEra_range [OF dayOfEra_range [of z]] show ?thesis
    by (auto simp: civil_def)
qed

lemma civil_ranges:
  "1 \<le> fst (snd (civil z))" "fst (snd (civil z)) \<le> 12"
  "1 \<le> snd (snd (civil z))" "snd (snd (civil z)) \<le> 31"
  using monthOf_range [OF year_range(3,4) [OF dayOfEra_range [of z]]]
    dateOf_range [OF year_range(3,4) [OF dayOfEra_range [of z]]]
  by (simp_all add: civil_def)

lemma isoDate_inj:
  assumes "isoDate y = isoDate z" "\<bar>y\<bar> \<le> 100000000" "\<bar>z\<bar> \<le> 100000000"
  shows "y = z"
proof -
  obtain a m d where y: "civil y = (a, m, d)" by (cases "civil y") auto
  obtain b n e where z: "civil z = (b, n, e)" by (cases "civil z") auto
  from assms(1) have eq: "isoYear a @ ''-'' @ pad2 m @ ''-'' @ pad2 d
                        = isoYear b @ ''-'' @ pad2 n @ ''-'' @ pad2 e"
    by (simp add: isoDate_def y z)
  from arg_cong [OF eq, of length] have "length (isoYear a) = length (isoYear b)"
    by (simp add: pad2_def)
  with eq have ya: "isoYear a = isoYear b" and rest: "pad2 m @ ''-'' @ pad2 d = pad2 n @ ''-'' @ pad2 e"
    by simp_all
  from rest have pm: "pad2 m = pad2 n" and pd: "pad2 d = pad2 e"
    by (simp_all add: pad2_def)
  have "a = b" using ya year_bound [OF assms(2)] year_bound [OF assms(3)]
    by (intro isoYear_inj) (simp_all add: y z)
  moreover have "m = n" using pm civil_ranges [of y] civil_ranges [of z]
    by (intro pad2_inj) (simp_all add: y z)
  moreover have "d = e" using pd civil_ranges [of y] civil_ranges [of z]
    by (intro pad2_inj) (simp_all add: y z)
  ultimately have "civil y = civil z" by (simp add: y z)
  then show ?thesis by (rule civil_inj)
qed

lemma utcDay_bound: "validDate t \<Longrightarrow> \<bar>utcDay t\<bar> \<le> 100000000"
  unfolding validDate_def utcDay_def msPerDay_def by linarith

lemma isoDateOnly_eq_iff:
  assumes "validDate s" "validDate t"
  shows "isoDateOnly s = isoDateOnly t \<longleftrightarrow> utcDay s = utcDay t"
  using isoDate_inj [OF _ utcDay_bound [OF assms(1)] utcDay_bound [OF assms(2)]]
  by (auto simp: isoDateOnly_def)


lemma isoDateOnly_localMidnight_eq_iff:
  assumes "summer z = None"
    and "validDate (localMidnight z ds)" "validDate (localMidnight z de)"
  shows "isoDateOnly (localMidnight z ds) = isoDateOnly (localMidnight z de) \<longleftrightarrow> ds = de"
  by (simp add: isoDateOnly_eq_iff [OF assms(2,3)] utcDay_localMidnight [OF assms(1)])

section \<open>Properties of buildLockIds\<close>

text \<open>Every id the loop adds is the id of the item and of some instant.\<close>

lemma buildLockIds_loop_ids:
  assumes "k \<in> set (buildLockIds_loop z itemId cursor end ids)"
  shows "k \<in> set ids \<or> (\<exists>t. k = lockId itemId t)"
  using assms
proof (induction z itemId cursor "end" ids rule: buildLockIds_loop.induct)
  case (1 z itemId cursor "end" ids)
  show ?case
  proof (cases "cursor \<le> end")
    case True
    with "1.prems" have "k \<in> set (buildLockIds_loop z itemId (addOneDay z cursor) end
                               (ids @ [lockId itemId cursor]))"
      by (simp add: buildLockIds_loop.simps [of z itemId cursor])
    from "1.IH" [OF True this] show ?thesis by auto
  next
    case False
    with "1.prems" show ?thesis by (simp add: buildLockIds_loop.simps [of z itemId cursor])
  qed
qed

lemma buildLockIds_ids:
  assumes "k \<in> set (buildLockIds z itemId startDate endDate)"
  shows "\<exists>t. k = lockId itemId t"
  using buildLockIds_loop_ids [OF assms [unfolded buildLockIds_def]] by simp

text \<open>
  Without summer time the loop visits the local midnights of the days from the first to
  the last.
\<close>

lemma buildLockIds_loop_days:
  assumes "summer z = None"
  shows "buildLockIds_loop z itemId (localMidnight z a) (localMidnight z b) ids =
           ids @ map (\<lambda>d. lockId itemId (localMidnight z d)) [a..b]"
proof (induction "nat (b - a + 1)" arbitrary: a ids)
  case 0
  then have "b < a" by simp
  then show ?case
    by (simp add: buildLockIds_loop.simps [of z itemId "localMidnight z a"] localMidnight_le)
next
  case (Suc n)
  then have le: "a \<le> b" and n: "n = nat (b - (a + 1) + 1)" by simp_all
  have "[a..b] = a # [a + 1..b]" using le by (simp add: upto_rec1)
  then show ?case
    using le Suc.hyps(1) [OF n]
    by (simp add: buildLockIds_loop.simps [of z itemId "localMidnight z a"] localMidnight_le
        addOneDay_localMidnight [OF assms])
qed

lemma buildLockIds_days:
  assumes "summer z = None"
  shows "buildLockIds z itemId startDate endDate =
           map (\<lambda>d. lockId itemId (localMidnight z d)) [localDay z startDate..localDay z endDate]"
  by (simp add: buildLockIds_def setHours0_def buildLockIds_loop_days [OF assms])

text \<open>
  In a zone of constant offset at or behind UTC the ids carry the days of the range; in
  one ahead of UTC each id carries the day before.
\<close>

lemma buildLockIds_west:
  assumes "summer z = None" "- 1440 < standard z" "standard z \<le> 0"
  shows "buildLockIds z itemId startDate endDate =
           map (\<lambda>d. itemId @ ''_'' @ isoDate d) [localDay z startDate..localDay z endDate]"
  by (simp add: buildLockIds_days [OF assms(1)] lockId_def isoDateOnly_def
      utcDay_localMidnight_west [OF assms])

lemma buildLockIds_east:
  assumes "summer z = None" "0 < standard z" "standard z \<le> 1440"
  shows "buildLockIds z itemId startDate endDate =
           map (\<lambda>d. itemId @ ''_'' @ isoDate (d - 1)) [localDay z startDate..localDay z endDate]"
  by (simp add: buildLockIds_days [OF assms(1)] lockId_def isoDateOnly_def
      utcDay_localMidnight_east [OF assms])

text \<open>
  C3. The claim: the ids of a range are one per day from the start to the end, the first
  carrying the date of the start. In a browser one hour ahead of UTC the one-day range
  of 4 December 2024 (day 20061), built by the form at local midnight, gets the single id
  of 3 December: local midnight is 23:00 of the day before in UTC, the date that
  \<open>toISOString\<close> prints.
\<close>

theorem buildLockIds_ahead_of_UTC:
  "isoDate 20061 = ''2024-12-04'' \<and>
   buildLockIds (fixed 60) ''item123'' (localMidnight (fixed 60) 20061)
       (localMidnight (fixed 60) 20061)
     = [''item123_2024-12-03'']"
  by (simp add: buildLockIds_def buildLockIds_loop.simps lockId_def fixed_def date_defs
      civil_defs iso_defs)

text \<open>
  In London the two days of 30 and 31 March 2025 get the same id twice: the clocks go
  forward on the 30th, and the local midnight of the 31st is 23:00 of the 30th in UTC.
\<close>

lemma buildLockIds_summer_time:
  "buildLockIds london ''item1'' (localMidnight london 20177) (localMidnight london 20178)
     = [''item1_2025-03-30'', ''item1_2025-03-30'']"
  by (simp add: buildLockIds_def buildLockIds_loop.simps lockId_def london_def date_defs
      civil_defs iso_defs)

section \<open>Two calls for overlapping days\<close>

text \<open>
  C1. The claim: of two calls for the same item with overlapping ranges at most one
  creates its locks. Ann asks for 10 and 11 June, Bob for 11 and 12 June, on an empty
  store; each call has its lock reads answered before the other commits. Both calls end
  with their booking created, both bookings are pending and hold the lock id of 11 June,
  and the one lock document of that day names Bob's booking.
\<close>

theorem two_calls_both_created:
  "(case run request1 request2 [False, True, False, True] (Waiting, Waiting, emptyStore) of
      (t1, t2, st) \<Rightarrow>
        t1 = Finished (Created ''b1'') \<and> t2 = Finished (Created ''b2'')
        \<and> liveLockHolders st ''item1_2025-06-11'' [''b1'', ''b2''] = [''b1'', ''b2'']
        \<and> map_option lock_bookingId (bookingLocks st ''item1_2025-06-11'') = Some ''b2'')"
  by (simp add: sample_defs request1_def request2_def submit_defs buildLockIds_def buildLockIds_loop.simps lockId_def
      liveLockHolders_def date_defs civil_defs iso_defs)

text \<open>When the first call has committed before the second reads, the second is refused.\<close>

lemma two_calls_in_turn:
  "(case run request1 request2 [False, False, True, True] (Waiting, Waiting, emptyStore) of
      (t1, t2, st) \<Rightarrow>
        t1 = Finished (Created ''b1'')
        \<and> t2 = Finished (Rejected (Text ''Sorry, some of the dates you selected are already booked by others. Please choose different dates.''))
        \<and> liveLockHolders st ''item1_2025-06-11'' [''b1'', ''b2''] = [''b1''])"
  by (simp add: sample_defs request1_def request2_def submit_defs buildLockIds_def buildLockIds_loop.simps lockId_def
      liveLockHolders_def date_defs civil_defs iso_defs)

section \<open>Properties of the grouping\<close>

text \<open>
  C9. The claim: both views file a pending or accepted booking that ended before today
  under archived. An accepted booking for 20 May 2025 (day 20228), seen on 1 June: the
  owner's view files it under archived, the renter's view under accepted.
\<close>

theorem renter_view_keeps_ended_booking:
  "loadOwnerBookings (fixed 0) (env_now (browser (fixed 0) ''b'')) [(''b1'', sampleBooking ''accepted'' 20228)]
     = Some (noGroups\<lparr>g_archived := [(''b1'', sampleBooking ''accepted'' 20228)]\<rparr>)
   \<and> loadMyBookings [(''b1'', sampleBooking ''accepted'' 20228)]
     = Some (noGroups\<lparr>g_accepted := [(''b1'', sampleBooking ''accepted'' 20228)]\<rparr>)"
  by (simp add: loadOwnerBookings_def loadMyBookings_def groupOwner_def groupMine_def
      getGroup_def pushGroup_def statusOf_def noGroups_def sample_defs sampleBooking_def
      date_defs)

section \<open>Properties of the submission\<close>

lemma fold_SetLock:
  "fold applyWrite (map (\<lambda>k. SetLock k (f k)) ids) st =
     st\<lparr>bookingLocks := (\<lambda>k. if k \<in> set ids then Some (f k) else bookingLocks st k)\<rparr>"
proof (induction ids arbitrary: st)
  case Nil
  show ?case by simp
next
  case (Cons i ids)
  show ?case by (simp add: Cons.IH fun_eq_iff)
qed

lemma commit_batch:
  "commit (SetBooking i b # map (\<lambda>k. SetLock k (f k)) ids) st =
     st\<lparr>bookings := (bookings st)(i \<mapsto> b),
        bookingLocks := (\<lambda>k. if k \<in> set ids then Some (f k) else bookingLocks st k)\<rparr>"
  by (rule store.equality) (simp_all add: commit_def fold_SetLock cong: if_cong)

text \<open>The only batch a call builds: its booking, then one lock for each of its lock ids.\<close>

lemma prepareBooking_batch:
  assumes "prepareBooking e cu iid it ds de st = Inr ws"
  shows "\<exists>u item s t. cu = Some u \<and> it = Some item \<and> ds = Some s \<and> de = Some t
           \<and> ws = SetBooking (newId e)
                    (newBooking e u iid item (localMidnight (env_tz e) s)
                       (localMidnight (env_tz e) t)
                       (buildLockIds (env_tz e) iid (localMidnight (env_tz e) s)
                          (localMidnight (env_tz e) t)))
                  # map (\<lambda>k. SetLock k (newLock e iid item k))
                      (buildLockIds (env_tz e) iid (localMidnight (env_tz e) s)
                         (localMidnight (env_tz e) t))
           \<and> existingLocks st (buildLockIds (env_tz e) iid (localMidnight (env_tz e) s)
                 (localMidnight (env_tz e) t)) = []"
  using assms
  by (auto simp: prepareBooking_def Let_def split: option.splits if_splits validation.splits)

lemma prepareBooking_not_Created:
  assumes "prepareBooking e cu iid it ds de st = Inl out"
  shows "out \<noteq> Created bid"
  using assms
  by (auto simp: prepareBooking_def Let_def split: option.splits if_splits validation.splits)

text \<open>
  C2. A call changes the store all at once or not at all. When its outcome is the created
  booking, the write went through, the booking is stored under the new id, a lock is
  stored under every lock id of the booking, and nothing else has changed; with any other
  outcome (a refusal, a failed read, a failed write) the store is the one before the call.
\<close>

theorem submit_all_or_nothing:
  assumes "submitBookingRequest e cu iid it ds de st = (r, st')"
  shows "case r of
           Created bid \<Rightarrow>
             writeOk e \<and> bid = newId e
             \<and> (\<exists>b item. it = Some item
                  \<and> bookings st' = (bookings st)(bid \<mapsto> b)
                  \<and> bookingLocks st' =
                      (\<lambda>k. if k \<in> set (bk_lockIds b) then Some (newLock e iid item k)
                           else bookingLocks st k))
         | _ \<Rightarrow> st' = st"
proof (cases "prepareBooking e cu iid it ds de st")
  case (Inl out)
  then have "r = out" "st' = st" using assms by (simp_all add: submitBookingRequest_def)
  moreover have "\<forall>bid. out \<noteq> Created bid"
    using Inl by (simp add: prepareBooking_not_Created)
  ultimately show ?thesis by (cases out) auto
next
  case (Inr ws)
  from prepareBooking_batch [OF Inr] obtain u item s t where
    it: "it = Some item" and
    ws: "ws = SetBooking (newId e)
                (newBooking e u iid item (localMidnight (env_tz e) s)
                   (localMidnight (env_tz e) t)
                   (buildLockIds (env_tz e) iid (localMidnight (env_tz e) s)
                      (localMidnight (env_tz e) t)))
              # map (\<lambda>k. SetLock k (newLock e iid item k))
                  (buildLockIds (env_tz e) iid (localMidnight (env_tz e) s)
                     (localMidnight (env_tz e) t))"
    by blast
  define ids where
    "ids = buildLockIds (env_tz e) iid (localMidnight (env_tz e) s) (localMidnight (env_tz e) t)"
  define B where
    "B = newBooking e u iid item (localMidnight (env_tz e) s) (localMidnight (env_tz e) t) ids"
  have B: "bk_lockIds B = ids" by (simp add: B_def newBooking_def)
  show ?thesis
  proof (cases "writeOk e")
    case True
    then have r: "r = Created (newId e)" and st': "st' = commit ws st"
      using assms Inr by (simp_all add: submitBookingRequest_def commitBooking_def)
    have "bookings st' = (bookings st)(newId e \<mapsto> B)"
      by (simp add: st' ws commit_batch B_def ids_def)
    moreover have "bookingLocks st' =
        (\<lambda>k. if k \<in> set (bk_lockIds B) then Some (newLock e iid item k) else bookingLocks st k)"
      by (simp add: st' ws commit_batch B ids_def)
    ultimately show ?thesis using True it r by auto
  next
    case False
    then have "r = Failed" "st' = st"
      using assms Inr by (simp_all add: submitBookingRequest_def commitBooking_def)
    then show ?thesis by simp
  qed
qed

text \<open>
  Ann's request for 10 and 11 June on the empty store is created, and a request of the
  owner herself is refused and leaves the store as it was.
\<close>

theorem submit_all_or_nothing_witness:
  "fst (submitBookingRequest (browser (fixed 0) ''b1'') (Some ann) ''item1'' (Some (olgasItem None))
          (Some 20249) (Some 20250) emptyStore) = Created ''b1''
   \<and> (\<exists>b. bookings (snd (submitBookingRequest (browser (fixed 0) ''b1'') (Some ann) ''item1''
                 (Some (olgasItem None)) (Some 20249) (Some 20250) emptyStore))
            = (bookings emptyStore)(''b1'' \<mapsto> b)
          \<and> bookingLocks (snd (submitBookingRequest (browser (fixed 0) ''b1'') (Some ann) ''item1''
                 (Some (olgasItem None)) (Some 20249) (Some 20250) emptyStore))
            = (\<lambda>k. if k \<in> set (bk_lockIds b)
                    then Some (newLock (browser (fixed 0) ''b1'') ''item1'' (olgasItem None) k)
                    else bookingLocks emptyStore k))
   \<and> submitBookingRequest (browser (fixed 0) ''b1'') (Some olga) ''item1'' (Some (olgasItem None))
          (Some 20249) (Some 20250) emptyStore
       = (Rejected (Text ''You cannot book your own item.''), emptyStore)"
proof -
  let ?res = "submitBookingRequest (browser (fixed 0) ''b1'') (Some ann) ''item1''
                (Some (olgasItem None)) (Some 20249) (Some 20250) emptyStore"
  let ?own = "submitBookingRequest (browser (fixed 0) ''b1'') (Some olga) ''item1''
                (Some (olgasItem None)) (Some 20249) (Some 20250) emptyStore"
  have created: "fst ?res = Created ''b1''"
    by (simp add: sample_defs submit_defs buildLockIds_def buildLockIds_loop.simps lockId_def
        date_defs civil_defs iso_defs)
  have refused: "fst ?own = Rejected (Text ''You cannot book your own item.'')"
    by (simp add: sample_defs submit_defs)
  have "?res = (fst ?res, snd ?res)" by simp
  from submit_all_or_nothing [OF this] created
  have one: "\<exists>b. bookings (snd ?res) = (bookings emptyStore)(''b1'' \<mapsto> b)
          \<and> bookingLocks (snd ?res)
            = (\<lambda>k. if k \<in> set (bk_lockIds b)
                    then Some (newLock (browser (fixed 0) ''b1'') ''item1'' (olgasItem None) k)
                    else bookingLocks emptyStore k)"
    by simp
  have "?own = (fst ?own, snd ?own)" by simp
  from submit_all_or_nothing [OF this] refused
  have "snd ?own = emptyStore" by simp
  with refused have two: "?own = (Rejected (Text ''You cannot book your own item.''), emptyStore)"
    by (simp add: prod_eq_iff)
  from created one two show ?thesis by blast
qed

text \<open>
  C6. The range check refuses exactly the ranges that start before the local midnight at
  which today began or end before they start; for the dates that the form builds these are
  the ranges whose first day is before today or whose last day is before the first, so that
  a range of one day, today or later, passes. In a submission the check comes first: when
  it refuses, the call returns its message and the store as it was, whatever the
  availability of the item and whatever the locks in the store.
\<close>

theorem precheck_before_policy:
  "(validateBookingDates z now startDate endDate \<noteq> Valid
      \<longleftrightarrow> startDate < setHours0 z now \<or> endDate < startDate)
   \<and> (validateBookingDates z now (localMidnight z ds) (localMidnight z de) \<noteq> Valid
      \<longleftrightarrow> ds < localDay z now \<or> de < ds)
   \<and> (uid u \<noteq> item_ownerId item
        \<and> validateBookingDates (env_tz e) (env_now e)
              (localMidnight (env_tz e) ds) (localMidnight (env_tz e) de) = Invalid m
      \<longrightarrow> submitBookingRequest e (Some u) iid (Some item) (Some ds) (Some de) st
            = (Rejected m, st))"
  by (auto simp: validateBookingDates_def setHours0_def localMidnight_less
      submitBookingRequest_def prepareBooking_def Let_def)

text \<open>
  On 1 June a request for 31 May is refused as past, on an item whose recurring policy
  would refuse that Saturday too; the one-day range of 1 June passes the check.
\<close>

theorem precheck_before_policy_witness:
  "validateBookingDates (fixed 0) (env_now (browser (fixed 0) ''b1''))
       (localMidnight (fixed 0) 20240) (localMidnight (fixed 0) 20240) = Valid
   \<and> uid ann \<noteq> item_ownerId (olgasItem (Some (policy ''recurring'' None None (Some [2]))))
   \<and> validateBookingDates (env_tz (browser (fixed 0) ''b1'')) (env_now (browser (fixed 0) ''b1''))
       (localMidnight (env_tz (browser (fixed 0) ''b1'')) 20239)
       (localMidnight (env_tz (browser (fixed 0) ''b1'')) 20239)
       = Invalid (Text ''Start date cannot be in the past'')
   \<and> submitBookingRequest (browser (fixed 0) ''b1'') (Some ann) ''item1''
        (Some (olgasItem (Some (policy ''recurring'' None None (Some [2])))))
        (Some 20239) (Some 20239) emptyStore
       = (Rejected (Text ''Start date cannot be in the past''), emptyStore)"
proof -
  have h: "uid ann \<noteq> item_ownerId (olgasItem (Some (policy ''recurring'' None None (Some [2]))))
    \<and> validateBookingDates (env_tz (browser (fixed 0) ''b1'')) (env_now (browser (fixed 0) ''b1''))
       (localMidnight (env_tz (browser (fixed 0) ''b1'')) 20239)
       (localMidnight (env_tz (browser (fixed 0) ''b1'')) 20239)
       = Invalid (Text ''Start date cannot be in the past'')"
    by (simp add: sample_defs validateBookingDates_def date_defs)
  have today: "localDay (fixed 0) (env_now (browser (fixed 0) ''b1'')) = 20240"
    by (simp add: sample_defs date_defs)
  have v: "validateBookingDates (fixed 0) (env_now (browser (fixed 0) ''b1''))
       (localMidnight (fixed 0) 20240) (localMidnight (fixed 0) 20240) = Valid"
    using precheck_before_policy [of "fixed 0" "env_now (browser (fixed 0) ''b1'')" _ _ 20240 20240]
    by (simp add: today)
  from precheck_before_policy [THEN conjunct2, THEN conjunct2, rule_format, OF h] h v
  show ?thesis by simp
qed

text \<open>
  C10. For an item without an availability field, or with one of an unknown type, the
  exported validator answers \<open>Unknown availability type\<close>, while the submission applies no
  availability check: once the range check has passed, the call goes on to read the locks
  of the range, and its outcome is the failed read, the refusal for days already booked,
  or the batch to commit.
\<close>

theorem no_policy_no_restriction:
  assumes "noPolicy item"
  shows "validateAvailability z item startDate endDate
           = Invalid (Text ''Unknown availability type'')
    \<and> checkAvailability z item startDate endDate = None
    \<and> (uid u \<noteq> item_ownerId item
        \<and> validateBookingDates (env_tz e) (env_now e)
              (localMidnight (env_tz e) ds) (localMidnight (env_tz e) de) = Valid
      \<longrightarrow> prepareBooking e (Some u) iid (Some item) (Some ds) (Some de) st =
           (let ids = buildLockIds (env_tz e) iid (localMidnight (env_tz e) ds)
                        (localMidnight (env_tz e) de)
            in if \<not> readsOk e then Inl Failed
               else if existingLocks st ids \<noteq> []
               then Inl (Rejected (Text ''Sorry, some of the dates you selected are already booked by others. Please choose different dates.''))
               else Inr (SetBooking (newId e)
                           (newBooking e u iid item (localMidnight (env_tz e) ds)
                              (localMidnight (env_tz e) de) ids)
                         # map (\<lambda>k. SetLock k (newLock e iid item k)) ids)))"
  using assms
  by (auto simp: noPolicy_def validateAvailability_def checkAvailability_def prepareBooking_def
      emptyAvailability_def ALWAYS_def DATE_RANGE_def RECURRING_def Let_def
      split: option.splits)

text \<open>
  An item whose availability has the type \<open>weekly\<close>: the validator refuses, the submission
  for 10 June is created.
\<close>

theorem no_policy_no_restriction_witness:
  "noPolicy (olgasItem (Some (policy ''weekly'' None None None)))
   \<and> validateAvailability (fixed 0) (olgasItem (Some (policy ''weekly'' None None None)))
        (localMidnight (fixed 0) 20249) (localMidnight (fixed 0) 20249)
       = Invalid (Text ''Unknown availability type'')
   \<and> fst (submitBookingRequest (browser (fixed 0) ''b1'') (Some ann) ''item1''
        (Some (olgasItem (Some (policy ''weekly'' None None None))))
        (Some 20249) (Some 20249) emptyStore) = Created ''b1''"
proof -
  have h: "noPolicy (olgasItem (Some (policy ''weekly'' None None None)))"
    by (simp add: noPolicy_def sample_defs)
  have "fst (submitBookingRequest (browser (fixed 0) ''b1'') (Some ann) ''item1''
        (Some (olgasItem (Some (policy ''weekly'' None None None))))
        (Some 20249) (Some 20249) emptyStore) = Created ''b1''"
    by (simp add: sample_defs submit_defs buildLockIds_def buildLockIds_loop.simps lockId_def
        date_defs civil_defs iso_defs)
  with h no_policy_no_restriction [OF h, of "fixed 0" "localMidnight (fixed 0) 20249" "localMidnight (fixed 0) 20249"]
  show ?thesis by simp
qed

section \<open>Properties of the date range policy\<close>








lemma dateOnly_two_digit_year:
  "isoDate (- 701105) = ''0050-06-10'' \<and> isoDate (- 7145) = ''1950-06-10''
   \<and> dateOnly (fixed 0) (localMidnight (fixed 0) (- 701105)) = localMidnight (fixed 0) (- 7145)"
  by (simp add: fixed_def date_defs civil_defs iso_defs)



section \<open>Properties of the created records\<close>

lemma split_no_sep: "sep \<notin> set s \<Longrightarrow> split sep s = [s]"
  by (induction s) auto

lemma split_at_sep: "sep \<notin> set a \<Longrightarrow> split sep (a @ sep # b) = a # split sep b"
  by (induction a) (auto split: list.splits)

lemma digit_in: "digit n \<in> set ''0123456789''"
  unfolding digit_def by (rule nth_mem) simp

lemma digit_not_underscore: "digit n \<noteq> CHR ''_''" "CHR ''_'' \<noteq> digit n"
  using digit_in [of n] by auto

lemma isoDate_no_underscore: "CHR ''_'' \<notin> set (isoDate z)"
  by (auto simp: isoDate_def isoYear_def pad2_def pad4_def pad6_def digit_not_underscore
      split: prod.splits)

lemma lockId_date:
  assumes "CHR ''_'' \<notin> set itemId"
  shows "at (split CHR ''_'' (lockId itemId t)) 1 = Some (isoDateOnly t)"
  using assms
  by (simp add: lockId_def split_at_sep split_no_sep isoDateOnly_def isoDate_no_underscore at_def)

lemma submit_Created:
  assumes "submitBookingRequest e cu iid it ds de st = (Created bid, st')"
  shows "\<exists>ws. prepareBooking e cu iid it ds de st = Inr ws \<and> writeOk e \<and> bid = newId e
           \<and> st' = commit ws st"
proof (cases "prepareBooking e cu iid it ds de st")
  case (Inl out)
  with assms have "out = Created bid" by (simp add: submitBookingRequest_def)
  with prepareBooking_not_Created [OF Inl, of bid] show ?thesis by simp
next
  case (Inr ws)
  with assms show ?thesis
    by (auto simp: submitBookingRequest_def commitBooking_def split: if_splits)
qed

text \<open>
  For an item id without an underscore, in every zone: after a successful submission the
  booking stored under the new id has the dates of the form and, as lock ids, the ids built
  from the item id and its own dates (without summer time: one for each day of the range);
  under every one of these ids a lock is stored that names the booking and has as date the
  ISO date that ends the id.
\<close>

lemma created_booking_and_locks:
  assumes "CHR ''_'' \<notin> set iid"
    and "submitBookingRequest e cu iid it (Some ds) (Some de) st = (Created bid, st')"
  shows "\<exists>b. bookings st' bid = Some b
           \<and> bk_startDate b = localMidnight (env_tz e) ds
           \<and> bk_endDate b = localMidnight (env_tz e) de
           \<and> bk_lockIds b = buildLockIds (env_tz e) iid (bk_startDate b) (bk_endDate b)
           \<and> (summer (env_tz e) = None
                \<longrightarrow> bk_lockIds b = map (\<lambda>d. lockId iid (localMidnight (env_tz e) d)) [ds..de])
           \<and> (\<forall>k \<in> set (bk_lockIds b). \<exists>l t.
                 bookingLocks st' k = Some l
                 \<and> lock_bookingId l = bid
                 \<and> k = lockId iid t
                 \<and> lock_date l = Some (isoDateOnly t))"
proof -
  from submit_Created [OF assms(2)] obtain ws where
    prep: "prepareBooking e cu iid it (Some ds) (Some de) st = Inr ws"
    and bid: "bid = newId e" and st': "st' = commit ws st" by blast
  define ids where
    "ids = buildLockIds (env_tz e) iid (localMidnight (env_tz e) ds) (localMidnight (env_tz e) de)"
  from prepareBooking_batch [OF prep] obtain u item where
    ws: "ws = SetBooking (newId e)
                (newBooking e u iid item (localMidnight (env_tz e) ds)
                   (localMidnight (env_tz e) de) ids)
              # map (\<lambda>k. SetLock k (newLock e iid item k)) ids"
    by (auto simp: ids_def)
  define B where
    "B = newBooking e u iid item (localMidnight (env_tz e) ds) (localMidnight (env_tz e) de) ids"
  have days: "ids = map (\<lambda>d. lockId iid (localMidnight (env_tz e) d)) [ds..de]"
    if "summer (env_tz e) = None"
    by (simp add: ids_def buildLockIds_days [OF that] localDay_localMidnight [OF that])
  have 1: "bookings st' bid = Some B"
    by (simp add: st' ws commit_batch bid B_def)
  have 2: "bk_startDate B = localMidnight (env_tz e) ds"
    "bk_endDate B = localMidnight (env_tz e) de" "bk_lockIds B = ids"
    by (simp_all add: B_def newBooking_def)
  have 3: "\<exists>l t. bookingLocks st' k = Some l \<and> lock_bookingId l = bid
                 \<and> k = lockId iid t \<and> lock_date l = Some (isoDateOnly t)"
    if "k \<in> set ids" for k
  proof -
    from that obtain t where k: "k = lockId iid t"
      unfolding ids_def by (auto dest: buildLockIds_ids)
    have "bookingLocks st' k = Some (newLock e iid item k)"
      using that by (simp add: st' ws commit_batch)
    then show ?thesis
      using lockId_date [OF assms(1), of t] by (auto simp: newLock_def bid k)
  qed
  have 4: "bk_lockIds B = buildLockIds (env_tz e) iid (bk_startDate B) (bk_endDate B)"
    by (simp add: 2 ids_def)
  from 1 2 3 4 days show ?thesis by auto
qed

text \<open>
  C7. The claim: the lock ids of a created booking are those of the calendar days of its
  range, and the lock of a day has as date the ISO date of that day. In a browser one hour
  ahead of UTC Ann books the one day 10 June 2025 (day 20249): the booking is created with
  the single lock id of 9 June, the lock stored under it has the date 2025-06-09, and no
  lock is stored for 10 June.
\<close>

theorem created_locks_ahead_of_UTC:
  "isoDate 20249 = ''2025-06-10''
   \<and> fst (submitBookingRequest (browser (fixed 60) ''b1'') (Some ann) ''item1''
          (Some (olgasItem None)) (Some 20249) (Some 20249) emptyStore) = Created ''b1''
   \<and> map_option bk_lockIds
        (bookings (snd (submitBookingRequest (browser (fixed 60) ''b1'') (Some ann) ''item1''
           (Some (olgasItem None)) (Some 20249) (Some 20249) emptyStore)) ''b1'')
       = Some [''item1_2025-06-09'']
   \<and> map_option lock_bookingId
        (bookingLocks (snd (submitBookingRequest (browser (fixed 60) ''b1'') (Some ann) ''item1''
           (Some (olgasItem None)) (Some 20249) (Some 20249) emptyStore)) ''item1_2025-06-09'')
       = Some ''b1''
   \<and> map_option lock_date
        (bookingLocks (snd (submitBookingRequest (browser (fixed 60) ''b1'') (Some ann) ''item1''
           (Some (olgasItem None)) (Some 20249) (Some 20249) emptyStore)) ''item1_2025-06-09'')
       = Some (Some ''2025-06-09'')
   \<and> bookingLocks (snd (submitBookingRequest (browser (fixed 60) ''b1'') (Some ann) ''item1''
           (Some (olgasItem None)) (Some 20249) (Some 20249) emptyStore)) ''item1_2025-06-10''
       = None"
  by (simp add: sample_defs submit_defs buildLockIds_def buildLockIds_loop.simps lockId_def
      date_defs civil_defs iso_defs)

section \<open>Properties of the booking actions\<close>

text \<open>
  The owner's dashboard renders the buttons to accept and to decline for the bookings of
  its pending group, and these are pending and not ended.
\<close>

lemma forEach_invariant:
  assumes "forEach f xs g = Some g'" and "P g"
    and "\<And>g x g'. P g \<Longrightarrow> x \<in> set xs \<Longrightarrow> f g x = Some g' \<Longrightarrow> P g'"
  shows "P g'"
  using assms
proof (induction xs arbitrary: g)
  case Nil
  then show ?case by simp
next
  case (Cons x xs)
  from Cons.prems(1) obtain g1 where g1: "f g x = Some g1" and rest: "forEach f xs g1 = Some g'"
    by (auto split: option.splits)
  have step: "P h \<Longrightarrow> y \<in> set xs \<Longrightarrow> f h y = Some h' \<Longrightarrow> P h'" for h y h'
    by (rule Cons.prems(3) [of h y h']) simp_all
  have "P g1" by (rule Cons.prems(3) [OF Cons.prems(2) _ g1]) simp
  then show ?case by (rule Cons.IH [OF rest _ step])
qed

lemma pushGroup_pending:
  assumes "pushGroup g s b = Some g'"
  shows "g_pending g' = (if s = ''pending'' then g_pending g @ [b] else g_pending g)"
proof (cases "s = ''pending''")
  case True
  with assms show ?thesis by (auto simp: pushGroup_def)
next
  case False
  with assms show ?thesis
    by (cases "s = ''accepted''"; cases "s = ''declined''"; cases "s = ''archived''")
       (auto simp add: pushGroup_def)
qed

lemma groupOwner_pending:
  assumes "groupOwner today g x = Some g'" and "y \<in> set (g_pending g')"
  shows "y \<in> set (g_pending g)
           \<or> (y = x \<and> statusOf (snd x) = ''pending'' \<and> \<not> bk_endDate (snd x) < today)"
proof -
  define c where "c \<longleftrightarrow> (statusOf (snd x) = ''accepted'' \<or> statusOf (snd x) = ''pending'')
                \<and> bk_endDate (snd x) < today"
  have eq: "groupOwner today g x =
      (if c then pushGroup g ''archived'' x
       else (case getGroup g (statusOf (snd x)) of
              Missing \<Rightarrow> pushGroup g ''archived'' x
            | _ \<Rightarrow> pushGroup g (statusOf (snd x)) x))"
    by (simp add: groupOwner_def Let_def c_def)
  have "pushGroup g ''archived'' x = Some g'
          \<or> (\<not> c \<and> pushGroup g (statusOf (snd x)) x = Some g')"
    using assms(1) unfolding eq by (cases c; cases "getGroup g (statusOf (snd x))") simp_all
  then show ?thesis
  proof
    assume "pushGroup g ''archived'' x = Some g'"
    from pushGroup_pending [OF this] assms(2) show ?thesis by simp
  next
    assume a: "\<not> c \<and> pushGroup g (statusOf (snd x)) x = Some g'"
    then have "g_pending g'
        = (if statusOf (snd x) = ''pending'' then g_pending g @ [x] else g_pending g)"
      using pushGroup_pending by blast
    with assms(2) a show ?thesis
      by (cases "statusOf (snd x) = ''pending''") (auto simp: c_def)
  qed
qed

lemma owner_pending_bucket:
  assumes "loadOwnerBookings z now snapshot = Some g" and "x \<in> set (g_pending g)"
  shows "statusOf (snd x) = ''pending'' \<and> \<not> bk_endDate (snd x) < setHours0 z now"
proof -
  let ?P = "\<lambda>g. \<forall>x \<in> set (g_pending g).
              statusOf (snd x) = ''pending'' \<and> \<not> bk_endDate (snd x) < setHours0 z now"
  have "?P g"
  proof (rule forEach_invariant [where P = ?P, OF assms(1) [unfolded loadOwnerBookings_def]])
    show "?P noGroups" by (simp add: noGroups_def)
  next
    fix g x g'
    assume "?P g" and "groupOwner (setHours0 z now) g x = Some g'"
    then show "?P g'"
      using groupOwner_pending [of "setHours0 z now" g x g'] by blast
  qed
  with assms(2) show ?thesis by blast
qed

lemma actionButtons_pending:
  assumes "loadOwnerBookings z now snapshot = Some g" and "i \<in> set (actionButtons g)"
  shows "\<exists>b. (i, b) \<in> set (g_pending g) \<and> statusOf b = ''pending''
           \<and> \<not> bk_endDate b < setHours0 z now"
proof -
  from assms(2) obtain b where b: "(i, b) \<in> set (g_pending g)"
    by (auto simp: actionButtons_def)
  from owner_pending_bucket [OF assms(1) b] b show ?thesis by auto
qed

text \<open>
  C8. The claim: a booking moves to accepted or declined only from pending, so that a
  declined booking moves no further. Olga's dashboard, loaded while Ann's booking is
  pending, shows the two buttons for it. Olga declines the booking; a dashboard loaded now
  would show no button. From the dashboard loaded before, still open in another tab, she
  then accepts it: the action does not read the status, reports success, and the booking,
  declined, is accepted, with both moves in its history.
\<close>

theorem declined_booking_accepted_from_stale_dashboard:
  "map_option actionButtons
      (loadOwnerBookings (fixed 0) (env_now (browser (fixed 0) ''x''))
         [(''b1'', sampleBooking ''pending'' 20249)]) = Some [''b1'']
   \<and> fst (handleBookingAction (browser (fixed 0) ''x'') (Some olga) ''b1'' ''declined''
        (emptyStore\<lparr>bookings := [''b1'' \<mapsto> sampleBooking ''pending'' 20249]\<rparr>)) = Updated
   \<and> map_option bk_status
        (bookings (snd (handleBookingAction (browser (fixed 0) ''x'') (Some olga) ''b1''
           ''declined''
           (emptyStore\<lparr>bookings := [''b1'' \<mapsto> sampleBooking ''pending'' 20249]\<rparr>))) ''b1'')
       = Some (Some ''declined'')
   \<and> map_option actionButtons
      (loadOwnerBookings (fixed 0) (env_now (browser (fixed 0) ''x''))
         [(''b1'', sampleBooking ''declined'' 20249)]) = Some []
   \<and> fst (handleBookingAction (browser (fixed 0) ''x'') (Some olga) ''b1'' ''accepted''
        (snd (handleBookingAction (browser (fixed 0) ''x'') (Some olga) ''b1'' ''declined''
           (emptyStore\<lparr>bookings := [''b1'' \<mapsto> sampleBooking ''pending'' 20249]\<rparr>))))
       = Updated
   \<and> map_option bk_status
        (bookings (snd (handleBookingAction (browser (fixed 0) ''x'') (Some olga) ''b1''
           ''accepted''
           (snd (handleBookingAction (browser (fixed 0) ''x'') (Some olga) ''b1'' ''declined''
              (emptyStore\<lparr>bookings := [''b1'' \<mapsto> sampleBooking ''pending'' 20249]\<rparr>)))))
           ''b1'')
       = Some (Some ''accepted'')
   \<and> map_option (\<lambda>b. map he_status (bk_statusHistory b))
        (bookings (snd (handleBookingAction (browser (fixed 0) ''x'') (Some olga) ''b1''
           ''accepted''
           (snd (handleBookingAction (browser (fixed 0) ''x'') (Some olga) ''b1'' ''declined''
              (emptyStore\<lparr>bookings := [''b1'' \<mapsto> sampleBooking ''pending'' 20249]\<rparr>)))))
           ''b1'')
       = Some [''pending'', ''declined'', ''accepted'']"
  by (simp add: handleBookingAction_def arrayUnion_def actionButtons_def loadOwnerBookings_def
      groupOwner_def getGroup_def pushGroup_def statusOf_def noGroups_def sample_defs
      sampleBooking_def date_defs Let_def)

text \<open>
  Nor does the action read who acts: Bob, who does not own the item, accepts a booking
  that Olga has declined.
\<close>

lemma declined_booking_accepted_by_stranger:
  "bk_ownerId (sampleBooking ''declined'' 20249) \<noteq> uid bob
   \<and> bk_status (sampleBooking ''declined'' 20249) = Some ''declined''
   \<and> fst (handleBookingAction (browser (fixed 0) ''x'') (Some bob) ''b1'' ''accepted''
        (emptyStore\<lparr>bookings := [''b1'' \<mapsto> sampleBooking ''declined'' 20249]\<rparr>)) = Updated
   \<and> map_option bk_status
        (bookings (snd (handleBookingAction (browser (fixed 0) ''x'') (Some bob) ''b1'' ''accepted''
           (emptyStore\<lparr>bookings := [''b1'' \<mapsto> sampleBooking ''declined'' 20249]\<rparr>))) ''b1'')
       = Some (Some ''accepted'')"
  by (simp add: handleBookingAction_def arrayUnion_def sample_defs sampleBooking_def)

section \<open>Properties of the recurring policy\<close>

text \<open>
  For an item with a recurring policy the exported validator accepts exactly the
  candidates of one local calendar day whose weekday is among the days of the policy; it
  refuses a candidate of more than one day with the reason of the same-day rule and a
  candidate of one day on another weekday with the reason of the weekday. In a zone
  without summer time the check inside the submission does the same on the dates the form
  builds.
\<close>

lemma recurring_policy:
  assumes "hasPolicy item ''recurring'' a"
  shows
    "(validateAvailability z item rs re = Valid
        \<longleftrightarrow> localDay z rs = localDay z re
            \<and> getDay z rs \<in> set (orEmpty (avail_daysOfWeek a)))
     \<and> (localDay z rs \<noteq> localDay z re
        \<longrightarrow> validateAvailability z item rs re
            = Invalid (Text ''Recurring availability items can only be booked for same-day use''))
     \<and> (localDay z rs = localDay z re \<and> getDay z rs \<notin> set (orEmpty (avail_daysOfWeek a))
        \<longrightarrow> validateAvailability z item rs re
            = Invalid (AvailableOn (orEmpty (avail_daysOfWeek a))))
     \<and> (summer z = None \<and> validDate (localMidnight z ds) \<and> validDate (localMidnight z de)
        \<longrightarrow> (checkAvailability z item (localMidnight z ds) (localMidnight z de) = None
              \<longleftrightarrow> ds = de
                  \<and> getDay z (localMidnight z ds) \<in> set (orEmpty (avail_daysOfWeek a)))
            \<and> (ds \<noteq> de
               \<longrightarrow> checkAvailability z item (localMidnight z ds) (localMidnight z de)
                   = Some (SameDayOnly (orEmpty (avail_daysOfWeek a))))
            \<and> (ds = de
                \<and> getDay z (localMidnight z ds) \<notin> set (orEmpty (avail_daysOfWeek a))
               \<longrightarrow> checkAvailability z item (localMidnight z ds) (localMidnight z de)
                   = Some (AvailableOnSelected (orEmpty (avail_daysOfWeek a))
                             (getDay z (localMidnight z ds)))))"
proof -
  have v: "validateAvailability z item rs re =
      (if localDay z rs \<noteq> localDay z re
       then Invalid (Text ''Recurring availability items can only be booked for same-day use'')
       else if getDay z rs \<notin> set (orEmpty (avail_daysOfWeek a))
       then Invalid (AvailableOn (orEmpty (avail_daysOfWeek a)))
       else Valid)"
    using assms
    by (simp add: hasPolicy_def validateAvailability_def toDateString_def ALWAYS_def
        DATE_RANGE_def RECURRING_def)
  have c: "checkAvailability z item (localMidnight z ds) (localMidnight z de) =
      (if ds \<noteq> de then Some (SameDayOnly (orEmpty (avail_daysOfWeek a)))
       else if getDay z (localMidnight z ds) \<notin> set (orEmpty (avail_daysOfWeek a))
       then Some (AvailableOnSelected (orEmpty (avail_daysOfWeek a))
                    (getDay z (localMidnight z ds)))
       else None)"
    if "summer z = None" "validDate (localMidnight z ds)" "validDate (localMidnight z de)"
    using assms
    by (simp add: hasPolicy_def checkAvailability_def checkRecurring_def Let_def
        isoDateOnly_localMidnight_eq_iff [OF that])
  have part1:
    "(validateAvailability z item rs re = Valid
        \<longleftrightarrow> localDay z rs = localDay z re
            \<and> getDay z rs \<in> set (orEmpty (avail_daysOfWeek a)))
     \<and> (localDay z rs \<noteq> localDay z re
        \<longrightarrow> validateAvailability z item rs re
            = Invalid (Text ''Recurring availability items can only be booked for same-day use''))
     \<and> (localDay z rs = localDay z re \<and> getDay z rs \<notin> set (orEmpty (avail_daysOfWeek a))
        \<longrightarrow> validateAvailability z item rs re
            = Invalid (AvailableOn (orEmpty (avail_daysOfWeek a))))"
    by (simp add: v)
  have part2:
    "(checkAvailability z item (localMidnight z ds) (localMidnight z de) = None
              \<longleftrightarrow> ds = de
                  \<and> getDay z (localMidnight z ds) \<in> set (orEmpty (avail_daysOfWeek a)))
            \<and> (ds \<noteq> de
               \<longrightarrow> checkAvailability z item (localMidnight z ds) (localMidnight z de)
                   = Some (SameDayOnly (orEmpty (avail_daysOfWeek a))))
            \<and> (ds = de
                \<and> getDay z (localMidnight z ds) \<notin> set (orEmpty (avail_daysOfWeek a))
               \<longrightarrow> checkAvailability z item (localMidnight z ds) (localMidnight z de)
                   = Some (AvailableOnSelected (orEmpty (avail_daysOfWeek a))
                             (getDay z (localMidnight z ds))))"
    if "summer z = None" "validDate (localMidnight z ds)" "validDate (localMidnight z de)"
    using c [OF that] by auto
  from part2 have part2':
    "summer z = None \<and> validDate (localMidnight z ds) \<and> validDate (localMidnight z de) \<longrightarrow>
      (checkAvailability z item (localMidnight z ds) (localMidnight z de) = None
              \<longleftrightarrow> ds = de
                  \<and> getDay z (localMidnight z ds) \<in> set (orEmpty (avail_daysOfWeek a)))
            \<and> (ds \<noteq> de
               \<longrightarrow> checkAvailability z item (localMidnight z ds) (localMidnight z de)
                   = Some (SameDayOnly (orEmpty (avail_daysOfWeek a))))
            \<and> (ds = de
                \<and> getDay z (localMidnight z ds) \<notin> set (orEmpty (avail_daysOfWeek a))
               \<longrightarrow> checkAvailability z item (localMidnight z ds) (localMidnight z de)
                   = Some (AvailableOnSelected (orEmpty (avail_daysOfWeek a))
                             (getDay z (localMidnight z ds))))"
    by (intro impI) (elim conjE)
  from part1 part2' show ?thesis
    apply (intro conjI)
    apply (rule part1 [THEN conjunct1])
    apply (rule part1 [THEN conjunct2, THEN conjunct1])
    apply (rule part1 [THEN conjunct2, THEN conjunct2])
    apply (rule part2')
    done
qed

text \<open>
  C4. The claim: every candidate of more than one day is refused. In London, for an item
  open on Sundays, the two days from Sunday 30 March 2025 (day 20177) to Monday 31 March
  are refused by the exported validator and pass the check of the submission, which
  compares the ISO dates of the two local midnights: the clocks go forward on the 30th,
  the local midnight of the 31st is 23:00 of the 30th in UTC, and both print 2025-03-30.
  The booking of the two days is created.
\<close>

theorem recurring_two_days_in_london:
  "isoDate 20177 = ''2025-03-30'' \<and> isoDate 20178 = ''2025-03-31''
   \<and> getDay london (localMidnight london 20177) = 0
   \<and> validateAvailability london (olgasItem (Some (policy ''recurring'' None None (Some [0]))))
        (localMidnight london 20177) (localMidnight london 20178)
       = Invalid (Text ''Recurring availability items can only be booked for same-day use'')
   \<and> checkAvailability london (olgasItem (Some (policy ''recurring'' None None (Some [0]))))
        (localMidnight london 20177) (localMidnight london 20178) = None
   \<and> fst (submitBookingRequest londonBrowser (Some ann) ''item1''
        (Some (olgasItem (Some (policy ''recurring'' None None (Some [0])))))
        (Some 20177) (Some 20178) emptyStore) = Created ''b1''"
  by (simp add: sample_defs london_def londonBrowser_def submit_defs validateAvailability_def
      ALWAYS_def DATE_RANGE_def RECURRING_def buildLockIds_def buildLockIds_loop.simps
      lockId_def date_defs civil_defs iso_defs)

text \<open>
  In a zone without summer time, for an item open on Tuesdays: Tuesday 10 June 2025 is
  accepted, Tuesday to Wednesday is refused as more than a day, Monday 9 June is refused
  for its weekday.
\<close>

lemma recurring_policy_tuesdays:
  "validateAvailability (fixed 0) (olgasItem (Some (policy ''recurring'' None None (Some [2]))))
        (localMidnight (fixed 0) 20249) (localMidnight (fixed 0) 20249) = Valid
   \<and> checkAvailability (fixed 0) (olgasItem (Some (policy ''recurring'' None None (Some [2]))))
        (localMidnight (fixed 0) 20249) (localMidnight (fixed 0) 20249) = None
   \<and> checkAvailability (fixed 0) (olgasItem (Some (policy ''recurring'' None None (Some [2]))))
        (localMidnight (fixed 0) 20249) (localMidnight (fixed 0) 20250) = Some (SameDayOnly [2])
   \<and> checkAvailability (fixed 0) (olgasItem (Some (policy ''recurring'' None None (Some [2]))))
        (localMidnight (fixed 0) 20248) (localMidnight (fixed 0) 20248)
       = Some (AvailableOnSelected [2] 1)"
  by (simp add: sample_defs submit_defs validateAvailability_def ALWAYS_def DATE_RANGE_def
      RECURRING_def date_defs civil_defs iso_defs)

end
